theory Spec2Isabelle
  imports Main
begin

section \<open>Queue operations of the RabbitMQ client (pkg/rpc/rmq/queue.go)\<close>

text \<open>
  The four public operations \<open>QueueDeclare\<close>, \<open>QueueBind\<close>, \<open>QueueDelete\<close> and
  \<open>QueuePurge\<close> are embedded as functions on an explicit world: the chronological trace
  of everything the operation did to the outside (dial attempts, sleeps, channel opens,
  channel commands, closes, log lines) and one typed store per options struct, since the Go
  code handles the options through pointers.  The answers of the AMQP library are
  parameters: each one may depend on the whole trace so far.
\<close>

subsection \<open>Values of the AMQP library\<close>

type_synonym conn = nat
type_synonym chan = nat

text \<open>
  A Go \<open>error\<close>.  \<open>AmqpError\<close> is a failure reported by the library; \<open>RetriesExhausted\<close> is
  the terminal error of the connect step, wrapping the last failure of the transport.
\<close>

datatype error = AmqpError string | RetriesExhausted error

text \<open>\<open>amqp.Table\<close> is a Go map from strings to field values; \<open>None\<close> is the nil table.\<close>

datatype field = FBool bool | FInt int | FString string

type_synonym Table = "(string \<times> field) list option"

text \<open>\<open>amqp.Queue\<close>, the descriptor a queue declaration answers with.\<close>

record Queue =
  Name :: string
  Messages :: int
  Consumers :: int

text \<open>The zero value of \<open>amqp.Queue\<close>, what \<open>var q amqp.Queue\<close> holds.\<close>

definition zero_Queue :: Queue where
  "zero_Queue = \<lparr>Name = [], Messages = 0, Consumers = 0\<rparr>"

subsection \<open>Option structs\<close>

record DeclareQueueOpts =
  Durable :: bool
  AutoDelete :: bool
  Exclusive :: bool
  NoWait :: bool
  Args :: Table

record QueueBindOpts =
  Bind_NoWait :: bool
  Bind_Args :: Table

record QueueDeleteOpts =
  IfUnused :: bool
  IfEmpty :: bool
  Delete_NoWait :: bool

text \<open>
  Modelled from the spec: \<open>ConnectOpts\<close> is declared in a file of the package that is not
  part of the sources at hand.  The spec gives it three fields: the URL, \<open>MaxRetries\<close> (a
  non-negative integer) and \<open>RetryInterval\<close> (a duration, here in nanoseconds).
\<close>

record ConnectOpts =
  URL :: string
  MaxRetries :: nat
  RetryInterval :: nat

subsection \<open>The observable trace\<close>

datatype logarg = LogStr string | LogInt int

text \<open>
  One event per interaction with the outside, carrying the arguments of the call and, where
  the call answers, the answer.
\<close>

datatype event =
    Dial string "error + conn"
  | Sleep nat
  | OpenChannel conn "error + chan"
  | ChQueueDeclare chan string bool bool bool bool Table "Queue \<times> error option"
  | ChQueueBind chan string string string bool Table "error option"
  | ChQueueDelete chan string bool bool bool "int \<times> error option"
  | ChQueuePurge chan string bool "int \<times> error option"
  | ChClose chan
  | ConnClose conn
  | LogPrintf string "logarg list"

subsection \<open>Stores for the option structs\<close>

text \<open>
  A pointer to a struct is an address in the store of that struct type; \<open>None\<close> is the nil
  pointer.  Addresses below \<open>next_free\<close> are the allocated ones.  Go has no dangling
  pointers, so a non-nil pointer a caller passes is always below \<open>next_free\<close>.
\<close>

record 'a store =
  cells :: "nat \<Rightarrow> 'a"
  next_free :: nat

definition alloc :: "'a \<Rightarrow> 'a store \<Rightarrow> nat \<times> 'a store" where
  "alloc v st =
     (next_free st, st\<lparr>cells := (cells st)(next_free st := v), next_free := Suc (next_free st)\<rparr>)"

record world =
  trace :: "event list"
  declareQueueOpts :: "DeclareQueueOpts store"
  queueBindOpts :: "QueueBindOpts store"
  queueDeleteOpts :: "QueueDeleteOpts store"
  connectOpts :: "ConnectOpts store"

definition emit :: "event \<Rightarrow> world \<Rightarrow> world" where
  "emit ev s = s\<lparr>trace := trace s @ [ev]\<rparr>"

subsection \<open>The environment: the AMQP library and the absent default\<close>

text \<open>
  The answers of \<open>amqp.Dial\<close>, \<open>Connection.Channel\<close> and the channel commands, each a
  function of the trace so far and of the arguments of the call.  \<open>Close\<close> answers with an
  error that the code drops, so it has no field.  \<open>default_ConnectOpts\<close> is the struct that
  \<open>DefaultConnectOpts()\<close> builds; that function is not part of the sources at hand and the
  spec gives no values for it, so it is a parameter.
\<close>

record env =
  amqp_Dial :: "event list \<Rightarrow> string \<Rightarrow> error + conn"
  conn_Channel :: "event list \<Rightarrow> conn \<Rightarrow> error + chan"
  ch_QueueDeclare ::
    "event list \<Rightarrow> chan \<Rightarrow> string \<Rightarrow> bool \<Rightarrow> bool \<Rightarrow> bool \<Rightarrow> bool \<Rightarrow> Table \<Rightarrow> Queue \<times> error option"
  ch_QueueBind ::
    "event list \<Rightarrow> chan \<Rightarrow> string \<Rightarrow> string \<Rightarrow> string \<Rightarrow> bool \<Rightarrow> Table \<Rightarrow> error option"
  ch_QueueDelete ::
    "event list \<Rightarrow> chan \<Rightarrow> string \<Rightarrow> bool \<Rightarrow> bool \<Rightarrow> bool \<Rightarrow> int \<times> error option"
  ch_QueuePurge :: "event list \<Rightarrow> chan \<Rightarrow> string \<Rightarrow> bool \<Rightarrow> int \<times> error option"
  default_ConnectOpts :: ConnectOpts

subsection \<open>Calls into the library\<close>

definition dial :: "env \<Rightarrow> string \<Rightarrow> world \<Rightarrow> (error + conn) \<times> world" where
  "dial lib url s = (let r = amqp_Dial lib (trace s) url in (r, emit (Dial url r) s))"

definition sleep :: "nat \<Rightarrow> world \<Rightarrow> world" where
  "sleep d s = emit (Sleep d) s"

definition Channel :: "env \<Rightarrow> conn \<Rightarrow> world \<Rightarrow> (error + chan) \<times> world" where
  "Channel lib c s = (let r = conn_Channel lib (trace s) c in (r, emit (OpenChannel c r) s))"

definition conn_Close :: "conn \<Rightarrow> world \<Rightarrow> world" where
  "conn_Close c s = emit (ConnClose c) s"

definition ch_Close :: "chan \<Rightarrow> world \<Rightarrow> world" where
  "ch_Close ch s = emit (ChClose ch) s"

definition channel_QueueDeclare ::
  "env \<Rightarrow> chan \<Rightarrow> string \<Rightarrow> bool \<Rightarrow> bool \<Rightarrow> bool \<Rightarrow> bool \<Rightarrow> Table \<Rightarrow> world
     \<Rightarrow> (Queue \<times> error option) \<times> world" where
  "channel_QueueDeclare lib ch name durable autoDelete exclusive noWait args s =
     (let r = ch_QueueDeclare lib (trace s) ch name durable autoDelete exclusive noWait args
      in (r, emit (ChQueueDeclare ch name durable autoDelete exclusive noWait args r) s))"

definition channel_QueueBind ::
  "env \<Rightarrow> chan \<Rightarrow> string \<Rightarrow> string \<Rightarrow> string \<Rightarrow> bool \<Rightarrow> Table \<Rightarrow> world
     \<Rightarrow> error option \<times> world" where
  "channel_QueueBind lib ch name key exchange noWait args s =
     (let r = ch_QueueBind lib (trace s) ch name key exchange noWait args
      in (r, emit (ChQueueBind ch name key exchange noWait args r) s))"

definition channel_QueueDelete ::
  "env \<Rightarrow> chan \<Rightarrow> string \<Rightarrow> bool \<Rightarrow> bool \<Rightarrow> bool \<Rightarrow> world \<Rightarrow> (int \<times> error option) \<times> world" where
  "channel_QueueDelete lib ch name ifUnused ifEmpty noWait s =
     (let r = ch_QueueDelete lib (trace s) ch name ifUnused ifEmpty noWait
      in (r, emit (ChQueueDelete ch name ifUnused ifEmpty noWait r) s))"

definition channel_QueuePurge ::
  "env \<Rightarrow> chan \<Rightarrow> string \<Rightarrow> bool \<Rightarrow> world \<Rightarrow> (int \<times> error option) \<times> world" where
  "channel_QueuePurge lib ch name noWait s =
     (let r = ch_QueuePurge lib (trace s) ch name noWait
      in (r, emit (ChQueuePurge ch name noWait r) s))"

definition log_Printf :: "string \<Rightarrow> logarg list \<Rightarrow> world \<Rightarrow> world" where
  "log_Printf fmt args s = emit (LogPrintf fmt args) s"

subsection \<open>Default options\<close>

definition DefaultDeclareQueueOpts :: "world \<Rightarrow> nat \<times> world" where
  "DefaultDeclareQueueOpts s =
     (let (p, st) = alloc \<lparr>Durable = True, AutoDelete = False, Exclusive = False,
                           NoWait = False, Args = None\<rparr> (declareQueueOpts s)
      in (p, s\<lparr>declareQueueOpts := st\<rparr>))"

definition DefaultQueueBindOpts :: "world \<Rightarrow> nat \<times> world" where
  "DefaultQueueBindOpts s =
     (let (p, st) = alloc \<lparr>Bind_NoWait = False, Bind_Args = None\<rparr> (queueBindOpts s)
      in (p, s\<lparr>queueBindOpts := st\<rparr>))"

text \<open>
  The Go literal names \<open>NoWait\<close> only; \<open>IfUnused\<close> and \<open>IfEmpty\<close> get the zero value of
  \<open>bool\<close>.
\<close>

definition DefaultQueueDeleteOpts :: "world \<Rightarrow> nat \<times> world" where
  "DefaultQueueDeleteOpts s =
     (let (p, st) = alloc \<lparr>IfUnused = False, IfEmpty = False, Delete_NoWait = False\<rparr>
                          (queueDeleteOpts s)
      in (p, s\<lparr>queueDeleteOpts := st\<rparr>))"

text \<open>
  Modelled from the spec: \<open>DefaultConnectOpts\<close> is a function of the package that is not
  part of the sources at hand.  Each operation assigns its result to the pointer variable
  that may next receive \<open>connOpts\<close>, so it returns a pointer to a struct; like the three
  functions above it is taken to build a fresh one.  The spec says that connect options are
  defaulted when absent and gives no values: they are the parameter \<open>default_ConnectOpts\<close>.
\<close>

definition DefaultConnectOpts :: "env \<Rightarrow> world \<Rightarrow> nat \<times> world" where
  "DefaultConnectOpts lib s =
     (let (p, st) = alloc (default_ConnectOpts lib) (connectOpts s)
      in (p, s\<lparr>connectOpts := st\<rparr>))"

subsection \<open>The connect step\<close>

text \<open>
  Modelled from the spec: \<open>Client.connect\<close> is a method of the package that is not part of
  the sources at hand.  The spec (4.1): attempt to open a transport connection to the URL;
  on failure, if remaining retries > 0, sleep \<open>RetryInterval\<close>, decrement, retry; on success
  return the connection; on exhaustion return an error wrapping the last underlying failure.
  \<open>connect_loop\<close> carries the remaining retries, \<open>connect\<close> starts it at \<open>MaxRetries\<close> of
  the struct the pointer names.
\<close>

fun connect_loop :: "env \<Rightarrow> ConnectOpts \<Rightarrow> nat \<Rightarrow> world \<Rightarrow> (error + conn) \<times> world" where
  "connect_loop lib opts 0 s =
     (case dial lib (URL opts) s of
        (Inr c, s') \<Rightarrow> (Inr c, s')
      | (Inl e, s') \<Rightarrow> (Inl (RetriesExhausted e), s'))"
| "connect_loop lib opts (Suc remaining) s =
     (case dial lib (URL opts) s of
        (Inr c, s') \<Rightarrow> (Inr c, s')
      | (Inl e, s') \<Rightarrow> connect_loop lib opts remaining (sleep (RetryInterval opts) s'))"

definition connect :: "env \<Rightarrow> nat \<Rightarrow> world \<Rightarrow> (error + conn) \<times> world" where
  "connect lib p s =
     (let opts = cells (connectOpts s) p in connect_loop lib opts (MaxRetries opts) s)"

subsection \<open>The four queue operations\<close>

text \<open>
  Each follows its Go body line by line.  The deferred \<open>conn.Close()\<close> and \<open>ch.Close()\<close>
  run when the function returns, the last deferred first: on every return after the
  connection was obtained the connection is closed, and after the channel was obtained the
  channel is closed before it.
\<close>

definition QueueDeclare ::
  "env \<Rightarrow> string \<Rightarrow> nat option \<Rightarrow> nat option \<Rightarrow> world \<Rightarrow> (Queue \<times> error option) \<times> world" where
  "QueueDeclare lib name opts connOpts s0 =
     (let (d, s1) = DefaultDeclareQueueOpts s0;
          defaultOpts = (case opts of Some p \<Rightarrow> p | None \<Rightarrow> d);
          (dc, s2) = DefaultConnectOpts lib s1;
          defaultConnOpts = (case connOpts of Some p \<Rightarrow> p | None \<Rightarrow> dc);
          q = zero_Queue
      in case connect lib defaultConnOpts s2 of
           (Inl err, s3) \<Rightarrow> ((q, Some err), s3)
         | (Inr conn, s3) \<Rightarrow>
             (case Channel lib conn s3 of
                (Inl err, s4) \<Rightarrow> ((q, Some err), conn_Close conn s4)
              | (Inr ch, s4) \<Rightarrow>
                  (let v = cells (declareQueueOpts s4) defaultOpts
                   in case channel_QueueDeclare lib ch name (Durable v) (AutoDelete v)
                             (Exclusive v) (NoWait v) (Args v) s4 of
                        ((q', Some err), s5) \<Rightarrow>
                          ((q', Some err), conn_Close conn (ch_Close ch s5))
                      | ((q', None), s5) \<Rightarrow>
                          ((q', None), conn_Close conn (ch_Close ch s5)))))"

definition QueueBind ::
  "env \<Rightarrow> string \<Rightarrow> string \<Rightarrow> string \<Rightarrow> nat option \<Rightarrow> nat option \<Rightarrow> world
     \<Rightarrow> error option \<times> world" where
  "QueueBind lib exchange queue key opts connOpts s0 =
     (let (d, s1) = DefaultQueueBindOpts s0;
          defaultOpts = (case opts of Some p \<Rightarrow> p | None \<Rightarrow> d);
          (dc, s2) = DefaultConnectOpts lib s1;
          defaultConnOpts = (case connOpts of Some p \<Rightarrow> p | None \<Rightarrow> dc)
      in case connect lib defaultConnOpts s2 of
           (Inl err, s3) \<Rightarrow> (Some err, s3)
         | (Inr conn, s3) \<Rightarrow>
             (case Channel lib conn s3 of
                (Inl err, s4) \<Rightarrow> (Some err, conn_Close conn s4)
              | (Inr ch, s4) \<Rightarrow>
                  (let v = cells (queueBindOpts s4) defaultOpts
                   in case channel_QueueBind lib ch queue key exchange
                             (Bind_NoWait v) (Bind_Args v) s4 of
                        (Some err, s5) \<Rightarrow> (Some err, conn_Close conn (ch_Close ch s5))
                      | (None, s5) \<Rightarrow> (None, conn_Close conn (ch_Close ch s5)))))"

definition QueueDelete ::
  "env \<Rightarrow> string \<Rightarrow> nat option \<Rightarrow> nat option \<Rightarrow> world \<Rightarrow> error option \<times> world" where
  "QueueDelete lib queue opts connOpts s0 =
     (let (d, s1) = DefaultQueueDeleteOpts s0;
          defaultOpts = (case opts of Some p \<Rightarrow> p | None \<Rightarrow> d);
          (dc, s2) = DefaultConnectOpts lib s1;
          defaultConnOpts = (case connOpts of Some p \<Rightarrow> p | None \<Rightarrow> dc)
      in case connect lib defaultConnOpts s2 of
           (Inl err, s3) \<Rightarrow> (Some err, s3)
         | (Inr conn, s3) \<Rightarrow>
             (case Channel lib conn s3 of
                (Inl err, s4) \<Rightarrow> (Some err, conn_Close conn s4)
              | (Inr ch, s4) \<Rightarrow>
                  (let v = cells (queueDeleteOpts s4) defaultOpts
                   in case channel_QueueDelete lib ch queue (IfUnused v) (IfEmpty v)
                             (Delete_NoWait v) s4 of
                        ((num, Some err), s5) \<Rightarrow>
                          (Some err, conn_Close conn (ch_Close ch s5))
                      | ((num, None), s5) \<Rightarrow>
                          (None,
                           conn_Close conn (ch_Close ch
                             (log_Printf ''Queue [%s] deleted. %d messages purged.\<newline>''
                                [LogStr queue, LogInt num] s5))))))"

definition QueuePurge ::
  "env \<Rightarrow> string \<Rightarrow> bool \<Rightarrow> nat option \<Rightarrow> world \<Rightarrow> error option \<times> world" where
  "QueuePurge lib queue noWait connOpts s0 =
     (let (dc, s2) = DefaultConnectOpts lib s0;
          defaultConnOpts = (case connOpts of Some p \<Rightarrow> p | None \<Rightarrow> dc)
      in case connect lib defaultConnOpts s2 of
           (Inl err, s3) \<Rightarrow> (Some err, s3)
         | (Inr conn, s3) \<Rightarrow>
             (case Channel lib conn s3 of
                (Inl err, s4) \<Rightarrow> (Some err, conn_Close conn s4)
              | (Inr ch, s4) \<Rightarrow>
                  (case channel_QueuePurge lib ch queue noWait s4 of
                     ((num, Some err), s5) \<Rightarrow> (Some err, conn_Close conn (ch_Close ch s5))
                   | ((num, None), s5) \<Rightarrow>
                       (None,
                        conn_Close conn (ch_Close ch
                          (log_Printf ''%d messages purged from queue [%s].\<newline>''
                             [LogInt num, LogStr queue] s5))))))"

subsection \<open>Vocabulary of the properties\<close>

text \<open>What a call added to the trace: the events of the final world beyond those of the initial one.\<close>

definition emitted :: "world \<Rightarrow> world \<Rightarrow> event list" where
  "emitted s s' = drop (length (trace s)) (trace s')"

text \<open>The events of a connect step that has not succeeded yet: failed dials and sleeps.\<close>

fun is_retry :: "event \<Rightarrow> bool" where
  "is_retry (Dial u (Inl e)) = True"
| "is_retry (Sleep d) = True"
| "is_retry _ = False"

fun is_dial :: "event \<Rightarrow> bool" where
  "is_dial (Dial u r) = True"
| "is_dial _ = False"

text \<open>The broker commands, the channel each is issued on and the error each answered with.\<close>

fun is_cmd :: "event \<Rightarrow> bool" where
  "is_cmd (ChQueueDeclare ch n d a x w args r) = True"
| "is_cmd (ChQueueBind ch n k x w args r) = True"
| "is_cmd (ChQueueDelete ch n u e w r) = True"
| "is_cmd (ChQueuePurge ch n w r) = True"
| "is_cmd _ = False"

fun cmd_chan :: "event \<Rightarrow> chan" where
  "cmd_chan (ChQueueDeclare ch n d a x w args r) = ch"
| "cmd_chan (ChQueueBind ch n k x w args r) = ch"
| "cmd_chan (ChQueueDelete ch n u e w r) = ch"
| "cmd_chan (ChQueuePurge ch n w r) = ch"
| "cmd_chan _ = 0"

fun cmd_err :: "event \<Rightarrow> error option" where
  "cmd_err (ChQueueDeclare ch n d a x w args r) = snd r"
| "cmd_err (ChQueueBind ch n k x w args r) = r"
| "cmd_err (ChQueueDelete ch n u e w r) = snd r"
| "cmd_err (ChQueuePurge ch n w r) = snd r"
| "cmd_err _ = None"

fun is_release :: "event \<Rightarrow> bool" where
  "is_release (ChClose ch) = True"
| "is_release (ConnClose c) = True"
| "is_release _ = False"

text \<open>
  The connections and channels that are open after a sequence of events: a successful dial
  or channel-open adds one, a close removes it.
\<close>

fun track :: "event \<Rightarrow> conn list \<times> chan list \<Rightarrow> conn list \<times> chan list" where
  "track (Dial u (Inr c)) (cs, hs) = (c # cs, hs)"
| "track (OpenChannel c (Inr h)) (cs, hs) = (cs, h # hs)"
| "track (ChClose h) (cs, hs) = (cs, remove1 h hs)"
| "track (ConnClose c) (cs, hs) = (remove1 c cs, hs)"
| "track ev (cs, hs) = (cs, hs)"

definition still_open :: "event list \<Rightarrow> conn list \<times> chan list" where
  "still_open evs = fold track evs ([], [])"

text \<open>
  The lines of each operation before its call of \<open>connect\<close>: the pointer to the operation's
  own options, the pointer to the connect options and the world that \<open>connect\<close> is called
  with.
\<close>

definition QueueDeclare_entry ::
  "env \<Rightarrow> nat option \<Rightarrow> nat option \<Rightarrow> world \<Rightarrow> nat \<times> nat \<times> world" where
  "QueueDeclare_entry lib opts connOpts s0 =
     (let (d, s1) = DefaultDeclareQueueOpts s0;
          (dc, s2) = DefaultConnectOpts lib s1
      in (case opts of Some p \<Rightarrow> p | None \<Rightarrow> d,
          case connOpts of Some p \<Rightarrow> p | None \<Rightarrow> dc, s2))"

definition QueueBind_entry ::
  "env \<Rightarrow> nat option \<Rightarrow> nat option \<Rightarrow> world \<Rightarrow> nat \<times> nat \<times> world" where
  "QueueBind_entry lib opts connOpts s0 =
     (let (d, s1) = DefaultQueueBindOpts s0;
          (dc, s2) = DefaultConnectOpts lib s1
      in (case opts of Some p \<Rightarrow> p | None \<Rightarrow> d,
          case connOpts of Some p \<Rightarrow> p | None \<Rightarrow> dc, s2))"

definition QueueDelete_entry ::
  "env \<Rightarrow> nat option \<Rightarrow> nat option \<Rightarrow> world \<Rightarrow> nat \<times> nat \<times> world" where
  "QueueDelete_entry lib opts connOpts s0 =
     (let (d, s1) = DefaultQueueDeleteOpts s0;
          (dc, s2) = DefaultConnectOpts lib s1
      in (case opts of Some p \<Rightarrow> p | None \<Rightarrow> d,
          case connOpts of Some p \<Rightarrow> p | None \<Rightarrow> dc, s2))"

definition QueuePurge_entry :: "env \<Rightarrow> nat option \<Rightarrow> world \<Rightarrow> nat \<times> world" where
  "QueuePurge_entry lib connOpts s0 =
     (let (dc, s2) = DefaultConnectOpts lib s0
      in (case connOpts of Some p \<Rightarrow> p | None \<Rightarrow> dc, s2))"

text \<open>
  A call of one of the four operations, to state what holds of each of them: \<open>run\<close> gives
  the error the call returns and the world it leaves, \<open>connect_site\<close> the pointer and the
  world of its call of \<open>connect\<close>.
\<close>

datatype call =
    DeclareCall string "nat option" "nat option"
  | BindCall string string string "nat option" "nat option"
  | DeleteCall string "nat option" "nat option"
  | PurgeCall string bool "nat option"

fun run :: "env \<Rightarrow> call \<Rightarrow> world \<Rightarrow> error option \<times> world" where
  "run lib (DeclareCall name opts connOpts) s =
     (snd (fst (QueueDeclare lib name opts connOpts s)), snd (QueueDeclare lib name opts connOpts s))"
| "run lib (BindCall exchange queue key opts connOpts) s =
     QueueBind lib exchange queue key opts connOpts s"
| "run lib (DeleteCall queue opts connOpts) s = QueueDelete lib queue opts connOpts s"
| "run lib (PurgeCall queue noWait connOpts) s = QueuePurge lib queue noWait connOpts s"

fun connect_site :: "env \<Rightarrow> call \<Rightarrow> world \<Rightarrow> nat \<times> world" where
  "connect_site lib (DeclareCall name opts connOpts) s = snd (QueueDeclare_entry lib opts connOpts s)"
| "connect_site lib (BindCall exchange queue key opts connOpts) s =
     snd (QueueBind_entry lib opts connOpts s)"
| "connect_site lib (DeleteCall queue opts connOpts) s = snd (QueueDelete_entry lib opts connOpts s)"
| "connect_site lib (PurgeCall queue noWait connOpts) s = QueuePurge_entry lib connOpts s"

definition call_error :: "env \<Rightarrow> call \<Rightarrow> world \<Rightarrow> error option" where
  "call_error lib c s = fst (run lib c s)"

definition call_events :: "env \<Rightarrow> call \<Rightarrow> world \<Rightarrow> event list" where
  "call_events lib c s = emitted s (snd (run lib c s))"

text \<open>The connect step of a call: what \<open>connect\<close> returns where the call calls it.\<close>

definition connect_step :: "env \<Rightarrow> call \<Rightarrow> world \<Rightarrow> (error + conn) \<times> world" where
  "connect_step lib c s = connect lib (fst (connect_site lib c s)) (snd (connect_site lib c s))"

subsection \<open>Concrete environments\<close>

text \<open>
  An empty world and four brokers: one that answers every call with success, one that
  refuses every dial, one that refuses to open a channel and one that rejects every command.
\<close>

definition world0 :: world where
  "world0 =
     \<lparr>trace = [],
      declareQueueOpts = \<lparr>cells = (\<lambda>_. \<lparr>Durable = False, AutoDelete = False, Exclusive = False,
                                          NoWait = False, Args = None\<rparr>), next_free = 0\<rparr>,
      queueBindOpts = \<lparr>cells = (\<lambda>_. \<lparr>Bind_NoWait = False, Bind_Args = None\<rparr>), next_free = 0\<rparr>,
      queueDeleteOpts = \<lparr>cells = (\<lambda>_. \<lparr>IfUnused = False, IfEmpty = False,
                                         Delete_NoWait = False\<rparr>), next_free = 0\<rparr>,
      connectOpts = \<lparr>cells = (\<lambda>_. \<lparr>URL = [], MaxRetries = 0, RetryInterval = 0\<rparr>),
                     next_free = 0\<rparr>\<rparr>"

definition broker_up :: env where
  "broker_up =
     \<lparr>amqp_Dial = (\<lambda>tr url. Inr 7),
      conn_Channel = (\<lambda>tr c. Inr 3),
      ch_QueueDeclare = (\<lambda>tr ch name d a x w args. (\<lparr>Name = name, Messages = 5, Consumers = 1\<rparr>, None)),
      ch_QueueBind = (\<lambda>tr ch name key exchange w args. None),
      ch_QueueDelete = (\<lambda>tr ch name u e w. (4, None)),
      ch_QueuePurge = (\<lambda>tr ch name w. (9, None)),
      default_ConnectOpts = \<lparr>URL = ''amqp://localhost'', MaxRetries = 2, RetryInterval = 1000\<rparr>\<rparr>"

definition broker_down :: env where
  "broker_down = broker_up\<lparr>amqp_Dial := (\<lambda>tr url. Inl (AmqpError ''refused''))\<rparr>"

definition no_channel :: env where
  "no_channel = broker_up\<lparr>conn_Channel := (\<lambda>tr c. Inl (AmqpError ''channel''))\<rparr>"

definition rejecting :: env where
  "rejecting = broker_up
     \<lparr>ch_QueueDeclare := (\<lambda>tr ch name d a x w args. (zero_Queue, Some (AmqpError ''precondition''))),
      ch_QueueBind := (\<lambda>tr ch name key exchange w args. Some (AmqpError ''not found'')),
      ch_QueueDelete := (\<lambda>tr ch name u e w. (0, Some (AmqpError ''not found''))),
      ch_QueuePurge := (\<lambda>tr ch name w. (0, Some (AmqpError ''not found'')))\<rparr>"

text \<open>A world in which a caller has allocated queue-declare options and connect options.\<close>

definition world1 :: world where
  "world1 = world0
     \<lparr>declareQueueOpts :=
        snd (alloc \<lparr>Durable = False, AutoDelete = True, Exclusive = True, NoWait = False,
                    Args = Some [(''x-max-length'', FInt 10)]\<rparr> (declareQueueOpts world0)),
      connectOpts :=
        snd (alloc \<lparr>URL = ''amqp://broker'', MaxRetries = 2, RetryInterval = 500\<rparr>
               (connectOpts world0))\<rparr>"

section \<open>Auxiliary facts\<close>

subsection \<open>The connect step\<close>

lemma connect_loop_shape:
  "\<exists>pre r0. list_all is_retry pre \<and>
     snd (connect_loop lib opts n s) = s\<lparr>trace := trace s @ pre @ [Dial (URL opts) r0]\<rparr> \<and>
     fst (connect_loop lib opts n s) =
       (case r0 of Inl e \<Rightarrow> Inl (RetriesExhausted e) | Inr c \<Rightarrow> Inr c)"
proof (induction n arbitrary: s)
  case 0
  show ?case
    by (rule exI [of _ "[]"], rule exI [of _ "amqp_Dial lib (trace s) (URL opts)"])
       (simp add: dial_def emit_def Let_def split: sum.splits)
next
  case (Suc n)
  show ?case
  proof (cases "amqp_Dial lib (trace s) (URL opts)")
    case (Inr c)
    then show ?thesis
      by (intro exI [of _ "[]"] exI [of _ "Inr c"]) (simp add: dial_def emit_def Let_def)
  next
    case (Inl e)
    let ?s' = "sleep (RetryInterval opts) (emit (Dial (URL opts) (Inl e)) s)"
    from Suc.IH [of ?s'] obtain pre r0 where
      p: "list_all is_retry pre"
      and s: "snd (connect_loop lib opts n ?s') = ?s'\<lparr>trace := trace ?s' @ pre @ [Dial (URL opts) r0]\<rparr>"
      and r: "fst (connect_loop lib opts n ?s') =
               (case r0 of Inl e \<Rightarrow> Inl (RetriesExhausted e) | Inr c \<Rightarrow> Inr c)"
      by blast
    show ?thesis
      using Inl p s r
      by (intro exI [of _ "Dial (URL opts) (Inl e) # Sleep (RetryInterval opts) # pre"]
                exI [of _ r0])
         (simp add: dial_def emit_def sleep_def Let_def)
  qed
qed

lemma connect_cases [case_names failed connected]:
  obtains
    (failed) pre e where "list_all is_retry pre"
      "connect lib p s = (Inl (RetriesExhausted e),
         s\<lparr>trace := trace s @ pre @ [Dial (URL (cells (connectOpts s) p)) (Inl e)]\<rparr>)"
  | (connected) pre c where "list_all is_retry pre"
      "connect lib p s = (Inr c,
         s\<lparr>trace := trace s @ pre @ [Dial (URL (cells (connectOpts s) p)) (Inr c)]\<rparr>)"
proof -
  let ?o = "cells (connectOpts s) p"
  obtain pre r0 where
    p: "list_all is_retry pre"
    and s: "snd (connect_loop lib ?o (MaxRetries ?o) s) = s\<lparr>trace := trace s @ pre @ [Dial (URL ?o) r0]\<rparr>"
    and r: "fst (connect_loop lib ?o (MaxRetries ?o) s) =
             (case r0 of Inl e \<Rightarrow> Inl (RetriesExhausted e) | Inr c \<Rightarrow> Inr c)"
    using connect_loop_shape [of lib ?o "MaxRetries ?o" s] by blast
  show thesis
  proof (cases r0)
    case (Inl e)
    with p s r have "connect lib p s = (Inl (RetriesExhausted e),
         s\<lparr>trace := trace s @ pre @ [Dial (URL ?o) (Inl e)]\<rparr>)"
      by (simp add: connect_def Let_def prod_eq_iff)
    with p show thesis by (rule failed)
  next
    case (Inr c)
    with p s r have "connect lib p s = (Inr c,
         s\<lparr>trace := trace s @ pre @ [Dial (URL ?o) (Inr c)]\<rparr>)"
      by (simp add: connect_def Let_def prod_eq_iff)
    with p show thesis by (rule connected)
  qed
qed

subsection \<open>The lines before the connect step\<close>

lemmas default_defs =
  DefaultDeclareQueueOpts_def DefaultQueueBindOpts_def DefaultQueueDeleteOpts_def
  DefaultConnectOpts_def alloc_def

lemmas entry_defs =
  QueueDeclare_entry_def QueueBind_entry_def QueueDelete_entry_def QueuePurge_entry_def

lemmas step_defs =
  Channel_def conn_Close_def ch_Close_def log_Printf_def emit_def
  channel_QueueDeclare_def channel_QueueBind_def channel_QueueDelete_def channel_QueuePurge_def

lemma QueueDeclare_entry_trace:
  "QueueDeclare_entry lib opts connOpts s0 = (po, pc, s2) \<Longrightarrow> trace s2 = trace s0"
  by (auto simp: entry_defs default_defs Let_def split: prod.splits)

lemma QueueBind_entry_trace:
  "QueueBind_entry lib opts connOpts s0 = (po, pc, s2) \<Longrightarrow> trace s2 = trace s0"
  by (auto simp: entry_defs default_defs Let_def split: prod.splits)

lemma QueueDelete_entry_trace:
  "QueueDelete_entry lib opts connOpts s0 = (po, pc, s2) \<Longrightarrow> trace s2 = trace s0"
  by (auto simp: entry_defs default_defs Let_def split: prod.splits)

lemma QueuePurge_entry_trace:
  "QueuePurge_entry lib connOpts s0 = (pc, s2) \<Longrightarrow> trace s2 = trace s0"
  by (auto simp: entry_defs default_defs Let_def split: prod.splits)

subsection \<open>The paths through each operation\<close>

lemma QueueDeclare_cases [consumes 1, case_names connect_failed channel_failed issued]:
  assumes entry: "QueueDeclare_entry lib opts connOpts s0 = (po, pc, s2)"
  obtains
    (connect_failed) pre u e e0 where "list_all is_retry pre"
      "connect lib pc s2 = (Inl e, s2\<lparr>trace := trace s0 @ pre @ [Dial u (Inl e0)]\<rparr>)"
      "QueueDeclare lib name opts connOpts s0 =
         ((zero_Queue, Some e), s2\<lparr>trace := trace s0 @ pre @ [Dial u (Inl e0)]\<rparr>)"
  | (channel_failed) pre u c e where "list_all is_retry pre"
      "connect lib pc s2 = (Inr c, s2\<lparr>trace := trace s0 @ pre @ [Dial u (Inr c)]\<rparr>)"
      "QueueDeclare lib name opts connOpts s0 =
         ((zero_Queue, Some e),
          s2\<lparr>trace := trace s0 @ pre @ [Dial u (Inr c), OpenChannel c (Inl e), ConnClose c]\<rparr>)"
      "conn_Channel lib (trace s0 @ pre @ [Dial u (Inr c)]) c = Inl e"
  | (issued) pre u c ch r v where "list_all is_retry pre"
      "connect lib pc s2 = (Inr c, s2\<lparr>trace := trace s0 @ pre @ [Dial u (Inr c)]\<rparr>)"
      "v = cells (declareQueueOpts s2) po"
      "r = ch_QueueDeclare lib (trace s0 @ pre @ [Dial u (Inr c), OpenChannel c (Inr ch)]) ch name
             (Durable v) (AutoDelete v) (Exclusive v) (NoWait v) (Args v)"
      "QueueDeclare lib name opts connOpts s0 =
         (r, s2\<lparr>trace := trace s0 @ pre @
                [Dial u (Inr c), OpenChannel c (Inr ch),
                 ChQueueDeclare ch name (Durable v) (AutoDelete v) (Exclusive v) (NoWait v) (Args v) r,
                 ChClose ch, ConnClose c]\<rparr>)"
      "conn_Channel lib (trace s0 @ pre @ [Dial u (Inr c)]) c = Inr ch"
proof -
  have tr: "trace s2 = trace s0" using entry by (rule QueueDeclare_entry_trace)
  have unf: "QueueDeclare lib name opts connOpts s0 =
     (case connect lib pc s2 of
           (Inl err, s3) \<Rightarrow> ((zero_Queue, Some err), s3)
         | (Inr conn, s3) \<Rightarrow>
             (case Channel lib conn s3 of
                (Inl err, s4) \<Rightarrow> ((zero_Queue, Some err), conn_Close conn s4)
              | (Inr ch, s4) \<Rightarrow>
                  (let v = cells (declareQueueOpts s4) po
                   in case channel_QueueDeclare lib ch name (Durable v) (AutoDelete v)
                             (Exclusive v) (NoWait v) (Args v) s4 of
                        ((q', Some err), s5) \<Rightarrow>
                          ((q', Some err), conn_Close conn (ch_Close ch s5))
                      | ((q', None), s5) \<Rightarrow>
                          ((q', None), conn_Close conn (ch_Close ch s5)))))"
    using entry by (auto simp: QueueDeclare_def QueueDeclare_entry_def Let_def split: prod.splits)
  show thesis
  proof (cases rule: connect_cases [of lib pc s2])
    case (failed pre e)
    show thesis
      by (rule connect_failed [OF failed(1)]) (simp_all add: unf failed(2) tr [symmetric])
  next
    case (connected pre c)
    let ?u = "URL (cells (connectOpts s2) pc)"
    let ?t1 = "trace s0 @ pre @ [Dial ?u (Inr c)]"
    show thesis
    proof (cases "conn_Channel lib ?t1 c")
      case (Inl e)
      show thesis
        by (rule channel_failed [where u = ?u and c = c and e = e, OF connected(1)])
           (simp_all add: unf connected(2) tr Inl step_defs Let_def)
    next
      case (Inr ch)
      show thesis
        by (rule issued [where u = ?u and c = c and ch = ch, OF connected(1)])
           (auto simp: unf connected(2) tr Inr step_defs Let_def split: prod.splits option.splits)
    qed
  qed
qed

lemma QueueBind_cases [consumes 1, case_names connect_failed channel_failed issued]:
  assumes entry: "QueueBind_entry lib opts connOpts s0 = (po, pc, s2)"
  obtains
    (connect_failed) pre u e e0 where "list_all is_retry pre"
      "connect lib pc s2 = (Inl e, s2\<lparr>trace := trace s0 @ pre @ [Dial u (Inl e0)]\<rparr>)"
      "QueueBind lib exchange queue key opts connOpts s0 =
         (Some e, s2\<lparr>trace := trace s0 @ pre @ [Dial u (Inl e0)]\<rparr>)"
  | (channel_failed) pre u c e where "list_all is_retry pre"
      "connect lib pc s2 = (Inr c, s2\<lparr>trace := trace s0 @ pre @ [Dial u (Inr c)]\<rparr>)"
      "QueueBind lib exchange queue key opts connOpts s0 =
         (Some e,
          s2\<lparr>trace := trace s0 @ pre @ [Dial u (Inr c), OpenChannel c (Inl e), ConnClose c]\<rparr>)"
      "conn_Channel lib (trace s0 @ pre @ [Dial u (Inr c)]) c = Inl e"
  | (issued) pre u c ch r v where "list_all is_retry pre"
      "connect lib pc s2 = (Inr c, s2\<lparr>trace := trace s0 @ pre @ [Dial u (Inr c)]\<rparr>)"
      "v = cells (queueBindOpts s2) po"
      "r = ch_QueueBind lib (trace s0 @ pre @ [Dial u (Inr c), OpenChannel c (Inr ch)]) ch
             queue key exchange (Bind_NoWait v) (Bind_Args v)"
      "QueueBind lib exchange queue key opts connOpts s0 =
         (r, s2\<lparr>trace := trace s0 @ pre @
                [Dial u (Inr c), OpenChannel c (Inr ch),
                 ChQueueBind ch queue key exchange (Bind_NoWait v) (Bind_Args v) r,
                 ChClose ch, ConnClose c]\<rparr>)"
      "conn_Channel lib (trace s0 @ pre @ [Dial u (Inr c)]) c = Inr ch"
proof -
  have tr: "trace s2 = trace s0" using entry by (rule QueueBind_entry_trace)
  have unf: "QueueBind lib exchange queue key opts connOpts s0 =
     (case connect lib pc s2 of
           (Inl err, s3) \<Rightarrow> (Some err, s3)
         | (Inr conn, s3) \<Rightarrow>
             (case Channel lib conn s3 of
                (Inl err, s4) \<Rightarrow> (Some err, conn_Close conn s4)
              | (Inr ch, s4) \<Rightarrow>
                  (let v = cells (queueBindOpts s4) po
                   in case channel_QueueBind lib ch queue key exchange
                             (Bind_NoWait v) (Bind_Args v) s4 of
                        (Some err, s5) \<Rightarrow> (Some err, conn_Close conn (ch_Close ch s5))
                      | (None, s5) \<Rightarrow> (None, conn_Close conn (ch_Close ch s5)))))"
    using entry by (auto simp: QueueBind_def QueueBind_entry_def Let_def split: prod.splits)
  show thesis
  proof (cases rule: connect_cases [of lib pc s2])
    case (failed pre e)
    show thesis
      by (rule connect_failed [OF failed(1)]) (simp_all add: unf failed(2) tr [symmetric])
  next
    case (connected pre c)
    let ?u = "URL (cells (connectOpts s2) pc)"
    let ?t1 = "trace s0 @ pre @ [Dial ?u (Inr c)]"
    show thesis
    proof (cases "conn_Channel lib ?t1 c")
      case (Inl e)
      show thesis
        by (rule channel_failed [where u = ?u and c = c and e = e, OF connected(1)])
           (simp_all add: unf connected(2) tr Inl step_defs Let_def)
    next
      case (Inr ch)
      show thesis
        by (rule issued [where u = ?u and c = c and ch = ch, OF connected(1)])
           (auto simp: unf connected(2) tr Inr step_defs Let_def split: prod.splits option.splits)
    qed
  qed
qed

lemma QueueDelete_cases
  [consumes 1, case_names connect_failed channel_failed command_failed deleted]:
  assumes entry: "QueueDelete_entry lib opts connOpts s0 = (po, pc, s2)"
  obtains
    (connect_failed) pre u e e0 where "list_all is_retry pre"
      "connect lib pc s2 = (Inl e, s2\<lparr>trace := trace s0 @ pre @ [Dial u (Inl e0)]\<rparr>)"
      "QueueDelete lib queue opts connOpts s0 =
         (Some e, s2\<lparr>trace := trace s0 @ pre @ [Dial u (Inl e0)]\<rparr>)"
  | (channel_failed) pre u c e where "list_all is_retry pre"
      "connect lib pc s2 = (Inr c, s2\<lparr>trace := trace s0 @ pre @ [Dial u (Inr c)]\<rparr>)"
      "QueueDelete lib queue opts connOpts s0 =
         (Some e,
          s2\<lparr>trace := trace s0 @ pre @ [Dial u (Inr c), OpenChannel c (Inl e), ConnClose c]\<rparr>)"
      "conn_Channel lib (trace s0 @ pre @ [Dial u (Inr c)]) c = Inl e"
  | (command_failed) pre u c ch num e v where "list_all is_retry pre"
      "connect lib pc s2 = (Inr c, s2\<lparr>trace := trace s0 @ pre @ [Dial u (Inr c)]\<rparr>)"
      "v = cells (queueDeleteOpts s2) po"
      "ch_QueueDelete lib (trace s0 @ pre @ [Dial u (Inr c), OpenChannel c (Inr ch)]) ch
             queue (IfUnused v) (IfEmpty v) (Delete_NoWait v) = (num, Some e)"
      "QueueDelete lib queue opts connOpts s0 =
         (Some e, s2\<lparr>trace := trace s0 @ pre @
                [Dial u (Inr c), OpenChannel c (Inr ch),
                 ChQueueDelete ch queue (IfUnused v) (IfEmpty v) (Delete_NoWait v) (num, Some e),
                 ChClose ch, ConnClose c]\<rparr>)"
      "conn_Channel lib (trace s0 @ pre @ [Dial u (Inr c)]) c = Inr ch"
  | (deleted) pre u c ch num v where "list_all is_retry pre"
      "connect lib pc s2 = (Inr c, s2\<lparr>trace := trace s0 @ pre @ [Dial u (Inr c)]\<rparr>)"
      "v = cells (queueDeleteOpts s2) po"
      "ch_QueueDelete lib (trace s0 @ pre @ [Dial u (Inr c), OpenChannel c (Inr ch)]) ch
             queue (IfUnused v) (IfEmpty v) (Delete_NoWait v) = (num, None)"
      "QueueDelete lib queue opts connOpts s0 =
         (None, s2\<lparr>trace := trace s0 @ pre @
                [Dial u (Inr c), OpenChannel c (Inr ch),
                 ChQueueDelete ch queue (IfUnused v) (IfEmpty v) (Delete_NoWait v) (num, None),
                 LogPrintf ''Queue [%s] deleted. %d messages purged.\<newline>'' [LogStr queue, LogInt num],
                 ChClose ch, ConnClose c]\<rparr>)"
      "conn_Channel lib (trace s0 @ pre @ [Dial u (Inr c)]) c = Inr ch"
proof -
  have tr: "trace s2 = trace s0" using entry by (rule QueueDelete_entry_trace)
  have unf: "QueueDelete lib queue opts connOpts s0 =
     (case connect lib pc s2 of
           (Inl err, s3) \<Rightarrow> (Some err, s3)
         | (Inr conn, s3) \<Rightarrow>
             (case Channel lib conn s3 of
                (Inl err, s4) \<Rightarrow> (Some err, conn_Close conn s4)
              | (Inr ch, s4) \<Rightarrow>
                  (let v = cells (queueDeleteOpts s4) po
                   in case channel_QueueDelete lib ch queue (IfUnused v) (IfEmpty v)
                             (Delete_NoWait v) s4 of
                        ((num, Some err), s5) \<Rightarrow>
                          (Some err, conn_Close conn (ch_Close ch s5))
                      | ((num, None), s5) \<Rightarrow>
                          (None,
                           conn_Close conn (ch_Close ch
                             (log_Printf ''Queue [%s] deleted. %d messages purged.\<newline>''
                                [LogStr queue, LogInt num] s5))))))"
    using entry by (auto simp: QueueDelete_def QueueDelete_entry_def Let_def split: prod.splits)
  show thesis
  proof (cases rule: connect_cases [of lib pc s2])
    case (failed pre e)
    show thesis
      by (rule connect_failed [OF failed(1)]) (simp_all add: unf failed(2) tr [symmetric])
  next
    case (connected pre c)
    let ?u = "URL (cells (connectOpts s2) pc)"
    let ?t1 = "trace s0 @ pre @ [Dial ?u (Inr c)]"
    show thesis
    proof (cases "conn_Channel lib ?t1 c")
      case (Inl e)
      show thesis
        by (rule channel_failed [where u = ?u and c = c and e = e, OF connected(1)])
           (simp_all add: unf connected(2) tr Inl step_defs Let_def)
    next
      case (Inr ch)
      let ?v = "cells (queueDeleteOpts s2) po"
      obtain num err where
        r: "ch_QueueDelete lib (trace s0 @ pre @ [Dial ?u (Inr c), OpenChannel c (Inr ch)]) ch
              queue (IfUnused ?v) (IfEmpty ?v) (Delete_NoWait ?v) = (num, err)"
        by (cases "ch_QueueDelete lib (trace s0 @ pre @ [Dial ?u (Inr c), OpenChannel c (Inr ch)]) ch
              queue (IfUnused ?v) (IfEmpty ?v) (Delete_NoWait ?v)") blast
      show thesis
      proof (cases err)
        case None
        show thesis
          by (rule deleted [where u = ?u and c = c and ch = ch and num = num, OF connected(1)])
             (simp_all add: unf connected(2) tr Inr r None step_defs Let_def)
      next
        case (Some e)
        show thesis
          by (rule command_failed [where u = ?u and c = c and ch = ch and num = num and e = e,
                OF connected(1)])
             (simp_all add: unf connected(2) tr Inr r Some step_defs Let_def)
      qed
    qed
  qed
qed

lemma QueuePurge_cases
  [consumes 1, case_names connect_failed channel_failed command_failed purged]:
  assumes entry: "QueuePurge_entry lib connOpts s0 = (pc, s2)"
  obtains
    (connect_failed) pre u e e0 where "list_all is_retry pre"
      "connect lib pc s2 = (Inl e, s2\<lparr>trace := trace s0 @ pre @ [Dial u (Inl e0)]\<rparr>)"
      "QueuePurge lib queue noWait connOpts s0 =
         (Some e, s2\<lparr>trace := trace s0 @ pre @ [Dial u (Inl e0)]\<rparr>)"
  | (channel_failed) pre u c e where "list_all is_retry pre"
      "connect lib pc s2 = (Inr c, s2\<lparr>trace := trace s0 @ pre @ [Dial u (Inr c)]\<rparr>)"
      "QueuePurge lib queue noWait connOpts s0 =
         (Some e,
          s2\<lparr>trace := trace s0 @ pre @ [Dial u (Inr c), OpenChannel c (Inl e), ConnClose c]\<rparr>)"
  | (command_failed) pre u c ch num e where "list_all is_retry pre"
      "connect lib pc s2 = (Inr c, s2\<lparr>trace := trace s0 @ pre @ [Dial u (Inr c)]\<rparr>)"
      "ch_QueuePurge lib (trace s0 @ pre @ [Dial u (Inr c), OpenChannel c (Inr ch)]) ch
             queue noWait = (num, Some e)"
      "QueuePurge lib queue noWait connOpts s0 =
         (Some e, s2\<lparr>trace := trace s0 @ pre @
                [Dial u (Inr c), OpenChannel c (Inr ch),
                 ChQueuePurge ch queue noWait (num, Some e),
                 ChClose ch, ConnClose c]\<rparr>)"
  | (purged) pre u c ch num where "list_all is_retry pre"
      "connect lib pc s2 = (Inr c, s2\<lparr>trace := trace s0 @ pre @ [Dial u (Inr c)]\<rparr>)"
      "ch_QueuePurge lib (trace s0 @ pre @ [Dial u (Inr c), OpenChannel c (Inr ch)]) ch
             queue noWait = (num, None)"
      "QueuePurge lib queue noWait connOpts s0 =
         (None, s2\<lparr>trace := trace s0 @ pre @
                [Dial u (Inr c), OpenChannel c (Inr ch),
                 ChQueuePurge ch queue noWait (num, None),
                 LogPrintf ''%d messages purged from queue [%s].\<newline>'' [LogInt num, LogStr queue],
                 ChClose ch, ConnClose c]\<rparr>)"
proof -
  have tr: "trace s2 = trace s0" using entry by (rule QueuePurge_entry_trace)
  have unf: "QueuePurge lib queue noWait connOpts s0 =
     (case connect lib pc s2 of
           (Inl err, s3) \<Rightarrow> (Some err, s3)
         | (Inr conn, s3) \<Rightarrow>
             (case Channel lib conn s3 of
                (Inl err, s4) \<Rightarrow> (Some err, conn_Close conn s4)
              | (Inr ch, s4) \<Rightarrow>
                  (case channel_QueuePurge lib ch queue noWait s4 of
                     ((num, Some err), s5) \<Rightarrow> (Some err, conn_Close conn (ch_Close ch s5))
                   | ((num, None), s5) \<Rightarrow>
                       (None,
                        conn_Close conn (ch_Close ch
                          (log_Printf ''%d messages purged from queue [%s].\<newline>''
                             [LogInt num, LogStr queue] s5))))))"
    using entry by (auto simp: QueuePurge_def QueuePurge_entry_def Let_def split: prod.splits)
  show thesis
  proof (cases rule: connect_cases [of lib pc s2])
    case (failed pre e)
    show thesis
      by (rule connect_failed [OF failed(1)]) (simp_all add: unf failed(2) tr [symmetric])
  next
    case (connected pre c)
    let ?u = "URL (cells (connectOpts s2) pc)"
    let ?t1 = "trace s0 @ pre @ [Dial ?u (Inr c)]"
    show thesis
    proof (cases "conn_Channel lib ?t1 c")
      case (Inl e)
      show thesis
        by (rule channel_failed [where u = ?u and c = c and e = e, OF connected(1)])
           (simp_all add: unf connected(2) tr Inl step_defs Let_def)
    next
      case (Inr ch)
      obtain num err where
        r: "ch_QueuePurge lib (trace s0 @ pre @ [Dial ?u (Inr c), OpenChannel c (Inr ch)]) ch
              queue noWait = (num, err)"
        by (cases "ch_QueuePurge lib (trace s0 @ pre @ [Dial ?u (Inr c), OpenChannel c (Inr ch)]) ch
              queue noWait") blast
      show thesis
      proof (cases err)
        case None
        show thesis
          by (rule purged [where u = ?u and c = c and ch = ch and num = num, OF connected(1)])
             (simp_all add: unf connected(2) tr Inr r None step_defs Let_def)
      next
        case (Some e)
        show thesis
          by (rule command_failed [where u = ?u and c = c and ch = ch and num = num and e = e,
                OF connected(1)])
             (simp_all add: unf connected(2) tr Inr r Some step_defs Let_def)
      qed
    qed
  qed
qed

subsection \<open>The paths through any of the four operations\<close>

lemma run_cases [consumes 1, case_names connect_failed channel_failed command logged]:
  assumes site: "connect_site lib call s0 = (pc, s2)"
  obtains
    (connect_failed) pre u e e0 where "list_all is_retry pre"
      "connect lib pc s2 = (Inl e, s2\<lparr>trace := trace s0 @ pre @ [Dial u (Inl e0)]\<rparr>)"
      "run lib call s0 = (Some e, s2\<lparr>trace := trace s0 @ pre @ [Dial u (Inl e0)]\<rparr>)"
  | (channel_failed) pre u c e where "list_all is_retry pre"
      "connect lib pc s2 = (Inr c, s2\<lparr>trace := trace s0 @ pre @ [Dial u (Inr c)]\<rparr>)"
      "run lib call s0 =
         (Some e,
          s2\<lparr>trace := trace s0 @ pre @ [Dial u (Inr c), OpenChannel c (Inl e), ConnClose c]\<rparr>)"
  | (command) pre u c ch cmd where "list_all is_retry pre"
      "connect lib pc s2 = (Inr c, s2\<lparr>trace := trace s0 @ pre @ [Dial u (Inr c)]\<rparr>)"
      "is_cmd cmd" "cmd_chan cmd = ch"
      "run lib call s0 =
         (cmd_err cmd,
          s2\<lparr>trace := trace s0 @ pre @
             [Dial u (Inr c), OpenChannel c (Inr ch), cmd, ChClose ch, ConnClose c]\<rparr>)"
  | (logged) pre u c ch cmd fmt args where "list_all is_retry pre"
      "connect lib pc s2 = (Inr c, s2\<lparr>trace := trace s0 @ pre @ [Dial u (Inr c)]\<rparr>)"
      "is_cmd cmd" "cmd_chan cmd = ch" "cmd_err cmd = None"
      "run lib call s0 =
         (None,
          s2\<lparr>trace := trace s0 @ pre @
             [Dial u (Inr c), OpenChannel c (Inr ch), cmd, LogPrintf fmt args,
              ChClose ch, ConnClose c]\<rparr>)"
proof (cases call)
  case (DeclareCall name opts connOpts)
  obtain po where entry: "QueueDeclare_entry lib opts connOpts s0 = (po, pc, s2)"
    using site DeclareCall by (cases "QueueDeclare_entry lib opts connOpts s0") simp
  from entry show thesis
  proof (cases rule: QueueDeclare_cases [where name = name])
    case (connect_failed pre u e e0)
    then show thesis using DeclareCall by (intro that(1) [of pre e u e0]) simp_all
  next
    case (channel_failed pre u c e)
    then show thesis using DeclareCall by (intro that(2) [of pre c u e]) simp_all
  next
    case (issued pre u c ch r v)
    then show thesis using DeclareCall
      by (intro that(3) [of pre c u
            "ChQueueDeclare ch name (Durable v) (AutoDelete v) (Exclusive v) (NoWait v) (Args v) r" ch])
         simp_all
  qed
next
  case (BindCall exchange queue key opts connOpts)
  obtain po where entry: "QueueBind_entry lib opts connOpts s0 = (po, pc, s2)"
    using site BindCall by (cases "QueueBind_entry lib opts connOpts s0") simp
  from entry show thesis
  proof (cases rule: QueueBind_cases [where exchange = exchange and queue = queue and key = key])
    case (connect_failed pre u e e0)
    then show thesis using BindCall by (intro that(1) [of pre e u e0]) simp_all
  next
    case (channel_failed pre u c e)
    then show thesis using BindCall by (intro that(2) [of pre c u e]) simp_all
  next
    case (issued pre u c ch r v)
    then show thesis using BindCall
      by (intro that(3) [of pre c u
            "ChQueueBind ch queue key exchange (Bind_NoWait v) (Bind_Args v) r" ch])
         simp_all
  qed
next
  case (DeleteCall queue opts connOpts)
  obtain po where entry: "QueueDelete_entry lib opts connOpts s0 = (po, pc, s2)"
    using site DeleteCall by (cases "QueueDelete_entry lib opts connOpts s0") simp
  from entry show thesis
  proof (cases rule: QueueDelete_cases [where queue = queue])
    case (connect_failed pre u e e0)
    then show thesis using DeleteCall by (intro that(1) [of pre e u e0]) simp_all
  next
    case (channel_failed pre u c e)
    then show thesis using DeleteCall by (intro that(2) [of pre c u e]) simp_all
  next
    case (command_failed pre u c ch num e v)
    then show thesis using DeleteCall
      by (intro that(3) [of pre c u
            "ChQueueDelete ch queue (IfUnused v) (IfEmpty v) (Delete_NoWait v) (num, Some e)" ch])
         simp_all
  next
    case (deleted pre u c ch num v)
    then show thesis using DeleteCall
      by (intro that(4) [of pre c u
            "ChQueueDelete ch queue (IfUnused v) (IfEmpty v) (Delete_NoWait v) (num, None)" ch])
         simp_all
  qed
next
  case (PurgeCall queue noWait connOpts)
  have entry: "QueuePurge_entry lib connOpts s0 = (pc, s2)"
    using site PurgeCall by simp
  from entry show thesis
  proof (cases rule: QueuePurge_cases [where queue = queue and noWait = noWait])
    case (connect_failed pre u e e0)
    then show thesis using PurgeCall by (intro that(1) [of pre e u e0]) simp_all
  next
    case (channel_failed pre u c e)
    then show thesis using PurgeCall by (intro that(2) [of pre c u e]) simp_all
  next
    case (command_failed pre u c ch num e)
    then show thesis using PurgeCall
      by (intro that(3) [of pre c u "ChQueuePurge ch queue noWait (num, Some e)" ch]) simp_all
  next
    case (purged pre u c ch num)
    then show thesis using PurgeCall
      by (intro that(4) [of pre c u "ChQueuePurge ch queue noWait (num, None)" ch]) simp_all
  qed
qed

subsection \<open>Splitting a trace behind the retries of the connect step\<close>

lemma emitted_extend [simp]:
  "emitted s0 (s2\<lparr>trace := trace s0 @ evs\<rparr>) = evs"
  by (simp add: emitted_def)

lemma split_after_retry:
  assumes "list_all is_retry P" and "\<not> is_retry x" and "P @ ys = pre @ x # post"
  shows "\<exists>q. pre = P @ q \<and> ys = q @ x # post"
proof -
  from assms(3) obtain us where
    "P = pre @ us \<and> us @ ys = x # post \<or> P @ us = pre \<and> ys = us @ x # post"
    by (auto simp: append_eq_append_conv2)
  then show ?thesis
  proof
    assume h: "P = pre @ us \<and> us @ ys = x # post"
    show ?thesis
    proof (cases us)
      case Nil
      with h show ?thesis by simp
    next
      case (Cons a us')
      with h have "x \<in> set P" by simp
      with assms(1,2) show ?thesis by (simp add: list_all_iff)
    qed
  next
    assume "P @ us = pre \<and> ys = us @ x # post"
    then show ?thesis by auto
  qed
qed

lemma fold_track_retry:
  "list_all is_retry P \<Longrightarrow> fold track P st = st"
proof (induction P arbitrary: st)
  case Nil
  show ?case by simp
next
  case (Cons ev P)
  obtain cs hs where st: "st = (cs, hs)" by (cases st)
  from Cons.prems have "is_retry ev" and "list_all is_retry P" by simp_all
  from \<open>is_retry ev\<close> have "track ev (cs, hs) = (cs, hs)"
    by (cases ev rule: is_retry.cases) simp_all
  with Cons.IH [OF \<open>list_all is_retry P\<close>] st show ?case by simp
qed

lemma track_cmd: "is_cmd cmd \<Longrightarrow> track cmd st = st"
  by (cases st, cases cmd) simp_all

lemma cmd_not_retry: "is_cmd cmd \<Longrightarrow> \<not> is_retry cmd"
  by (cases cmd) simp_all

lemma retry_not_cmd: "list_all is_retry P \<Longrightarrow> filter is_cmd P = []"
  by (induction P) (auto dest: cmd_not_retry)

lemma split_retry_iff:
  assumes "list_all is_retry P" and "\<not> is_retry x"
  shows "(P @ ys = pre @ x # post) = (\<exists>q. pre = P @ q \<and> ys = q @ x # post)"
  using split_after_retry [OF assms] by auto

lemma split_retry_only:
  assumes "list_all is_retry P" and "\<not> is_retry x"
  shows "P \<noteq> pre @ x # post"
  using assms by (auto simp: list_all_iff)

lemma acquired_intro:
  "pre = xs @ Dial u (Inr c) # ys @ OpenChannel c (Inr h) # zs \<Longrightarrow>
   \<exists>pre1 u c pre2 pre3. pre = pre1 @ Dial u (Inr c) # pre2 @ OpenChannel c (Inr h) # pre3"
  by blast

lemma retry_no_close: "list_all is_retry P \<Longrightarrow> ConnClose c \<notin> set P"
  by (auto simp: list_all_iff)

lemma retry_member: "list_all is_retry P \<Longrightarrow> ev \<in> set P \<Longrightarrow> is_retry ev"
  by (simp add: list_all_iff)

subsection \<open>The default structs\<close>

lemma QueueDeclare_entry_nil:
  "QueueDeclare_entry lib None connOpts s0 = (po, pc, s2) \<Longrightarrow>
   cells (declareQueueOpts s2) po =
     \<lparr>Durable = True, AutoDelete = False, Exclusive = False, NoWait = False, Args = None\<rparr>"
  by (auto simp: entry_defs default_defs Let_def split: prod.splits)

lemma QueueBind_entry_nil:
  "QueueBind_entry lib None connOpts s0 = (po, pc, s2) \<Longrightarrow>
   cells (queueBindOpts s2) po = \<lparr>Bind_NoWait = False, Bind_Args = None\<rparr>"
  by (auto simp: entry_defs default_defs Let_def split: prod.splits)

lemma QueueDelete_entry_nil:
  "QueueDelete_entry lib None connOpts s0 = (po, pc, s2) \<Longrightarrow>
   cells (queueDeleteOpts s2) po = \<lparr>IfUnused = False, IfEmpty = False, Delete_NoWait = False\<rparr>"
  by (auto simp: entry_defs default_defs Let_def split: prod.splits)

subsection \<open>The connect step asks the environment for dials only\<close>

lemma dial_env:
  "amqp_Dial lib' = amqp_Dial lib \<Longrightarrow> dial lib' u s = dial lib u s"
  by (simp add: dial_def)

lemma connect_loop_env:
  assumes "amqp_Dial lib' = amqp_Dial lib"
  shows "connect_loop lib' opts n s = connect_loop lib opts n s"
proof (induction n arbitrary: s)
  case 0
  show ?case by (simp add: dial_env [OF assms])
next
  case (Suc n)
  show ?case by (simp add: dial_env [OF assms] Suc.IH split: prod.splits sum.splits)
qed

lemma connect_env:
  assumes "amqp_Dial lib' = amqp_Dial lib"
  shows "connect lib' p s = connect lib p s"
  unfolding connect_def Let_def by (rule connect_loop_env [OF assms])

subsection \<open>The connect step against a transport that always fails\<close>

lemma connect_loop_always_failing:
  assumes fails: "\<forall>tr u. isl (amqp_Dial lib tr u)"
  shows "\<exists>evs e. snd (connect_loop lib opts n s) = s\<lparr>trace := trace s @ evs\<rparr> \<and>
           fst (connect_loop lib opts n s) = Inl (RetriesExhausted e) \<and>
           last evs = Dial (URL opts) (Inl e) \<and>
           length evs = 2 * n + 1 \<and>
           length (filter is_dial evs) = n + 1 \<and>
           (\<forall>i < length evs.
              (even i \<longrightarrow> (\<exists>e'. evs ! i = Dial (URL opts) (Inl e'))) \<and>
              (odd i \<longrightarrow> evs ! i = Sleep (RetryInterval opts)))"
proof (induction n arbitrary: s)
  case 0
  obtain e where e: "amqp_Dial lib (trace s) (URL opts) = Inl e"
    using fails [rule_format, of "trace s" "URL opts"]
    by (cases "amqp_Dial lib (trace s) (URL opts)") simp_all
  show ?case
    by (intro exI [of _ "[Dial (URL opts) (Inl e)]"] exI [of _ e])
       (simp add: dial_def emit_def Let_def e)
next
  case (Suc n)
  obtain e0 where e0: "amqp_Dial lib (trace s) (URL opts) = Inl e0"
    using fails [rule_format, of "trace s" "URL opts"]
    by (cases "amqp_Dial lib (trace s) (URL opts)") simp_all
  let ?s' = "sleep (RetryInterval opts) (emit (Dial (URL opts) (Inl e0)) s)"
  from Suc.IH [of ?s'] obtain evs e where
    s: "snd (connect_loop lib opts n ?s') = ?s'\<lparr>trace := trace ?s' @ evs\<rparr>"
    and r: "fst (connect_loop lib opts n ?s') = Inl (RetriesExhausted e)"
    and l: "last evs = Dial (URL opts) (Inl e)"
    and len: "length evs = 2 * n + 1"
    and dials: "length (filter is_dial evs) = n + 1"
    and pat: "\<forall>i < length evs.
              (even i \<longrightarrow> (\<exists>e'. evs ! i = Dial (URL opts) (Inl e'))) \<and>
              (odd i \<longrightarrow> evs ! i = Sleep (RetryInterval opts))"
    by blast
  let ?evs = "Dial (URL opts) (Inl e0) # Sleep (RetryInterval opts) # evs"
  have ne: "evs \<noteq> []" using len by auto
  have step: "connect_loop lib opts (Suc n) s = connect_loop lib opts n ?s'"
    by (simp add: dial_def Let_def e0)
  have 1: "snd (connect_loop lib opts (Suc n) s) = s\<lparr>trace := trace s @ ?evs\<rparr>"
    using s unfolding step by (simp add: sleep_def emit_def)
  have 2: "fst (connect_loop lib opts (Suc n) s) = Inl (RetriesExhausted e)"
    using r unfolding step .
  have 3: "last ?evs = Dial (URL opts) (Inl e)"
    using l ne by simp
  have 4: "length ?evs = 2 * Suc n + 1"
    using len by simp
  have 5: "length (filter is_dial ?evs) = Suc n + 1"
    using dials by simp
  have 6: "\<forall>i < length ?evs.
              (even i \<longrightarrow> (\<exists>e'. ?evs ! i = Dial (URL opts) (Inl e'))) \<and>
              (odd i \<longrightarrow> ?evs ! i = Sleep (RetryInterval opts))"
  proof (intro allI impI)
    fix i assume i: "i < length ?evs"
    show "(even i \<longrightarrow> (\<exists>e'. ?evs ! i = Dial (URL opts) (Inl e'))) \<and>
          (odd i \<longrightarrow> ?evs ! i = Sleep (RetryInterval opts))"
    proof (cases i)
      case 0
      then show ?thesis by simp
    next
      case (Suc j)
      show ?thesis
      proof (cases j)
        case 0
        with Suc show ?thesis by simp
      next
        case (Suc k)
        with \<open>i = Suc j\<close> i have "k < length evs" by simp
        with pat Suc \<open>i = Suc j\<close> show ?thesis by simp
      qed
    qed
  qed
  show ?case
    by (rule exI [of _ ?evs], rule exI [of _ e]) (intro conjI 1 2 3 4 5 6)
qed

subsection \<open>The stores\<close>

lemma connect_site_frame:
  assumes "connect_site lib call s0 = (pc, s2)"
  shows "(\<forall>a < next_free (declareQueueOpts s0).
            cells (declareQueueOpts s2) a = cells (declareQueueOpts s0) a) \<and>
         (\<forall>a < next_free (queueBindOpts s0).
            cells (queueBindOpts s2) a = cells (queueBindOpts s0) a) \<and>
         (\<forall>a < next_free (queueDeleteOpts s0).
            cells (queueDeleteOpts s2) a = cells (queueDeleteOpts s0) a) \<and>
         (\<forall>a < next_free (connectOpts s0).
            cells (connectOpts s2) a = cells (connectOpts s0) a)"
  using assms
  by (cases call) (auto simp: entry_defs default_defs Let_def split: prod.splits)

lemma run_stores:
  assumes "connect_site lib call s0 = (pc, s2)"
  shows "declareQueueOpts (snd (run lib call s0)) = declareQueueOpts s2 \<and>
         queueBindOpts (snd (run lib call s0)) = queueBindOpts s2 \<and>
         queueDeleteOpts (snd (run lib call s0)) = queueDeleteOpts s2 \<and>
         connectOpts (snd (run lib call s0)) = connectOpts s2"
  using assms by (cases rule: run_cases) simp_all

subsection \<open>What is issued once the connection and the channel are obtained\<close>

lemma QueueDeclare_issues:
  assumes entry: "QueueDeclare_entry lib opts connOpts s0 = (po, pc, s2)"
    and conn: "fst (connect lib pc s2) = Inr c"
    and chan: "conn_Channel lib (trace (snd (connect lib pc s2))) c = Inr ch"
    and v: "v = cells (declareQueueOpts s2) po"
  shows "filter is_cmd (emitted s0 (snd (QueueDeclare lib name opts connOpts s0))) =
     [ChQueueDeclare ch name (Durable v) (AutoDelete v) (Exclusive v) (NoWait v) (Args v)
        (ch_QueueDeclare lib (trace (snd (connect lib pc s2)) @ [OpenChannel c (Inr ch)]) ch name
           (Durable v) (AutoDelete v) (Exclusive v) (NoWait v) (Args v))]"
  using entry
proof (cases rule: QueueDeclare_cases [where name = name])
  case (connect_failed P u e e0)
  with conn show ?thesis by simp
next
  case (channel_failed P u c' e)
  with conn chan show ?thesis by simp
next
  case (issued P u c' ch' r v')
  from issued(2) conn have c: "c' = c" by simp
  from issued(2,6) chan c have ch: "ch' = ch" by simp
  show ?thesis
    using issued(3,4) v
    by (simp add: issued(2,5) c ch retry_not_cmd [OF issued(1)])
qed

lemma QueueBind_issues:
  assumes entry: "QueueBind_entry lib opts connOpts s0 = (po, pc, s2)"
    and conn: "fst (connect lib pc s2) = Inr c"
    and chan: "conn_Channel lib (trace (snd (connect lib pc s2))) c = Inr ch"
    and v: "v = cells (queueBindOpts s2) po"
  shows "filter is_cmd (emitted s0 (snd (QueueBind lib exchange queue key opts connOpts s0))) =
     [ChQueueBind ch queue key exchange (Bind_NoWait v) (Bind_Args v)
        (ch_QueueBind lib (trace (snd (connect lib pc s2)) @ [OpenChannel c (Inr ch)]) ch
           queue key exchange (Bind_NoWait v) (Bind_Args v))]"
  using entry
proof (cases rule: QueueBind_cases [where exchange = exchange and queue = queue and key = key])
  case (connect_failed P u e e0)
  with conn show ?thesis by simp
next
  case (channel_failed P u c' e)
  with conn chan show ?thesis by simp
next
  case (issued P u c' ch' r v')
  from issued(2) conn have c: "c' = c" by simp
  from issued(2,6) chan c have ch: "ch' = ch" by simp
  show ?thesis
    using issued(3,4) v
    by (simp add: issued(2,5) c ch retry_not_cmd [OF issued(1)])
qed

lemma QueueDelete_issues:
  assumes entry: "QueueDelete_entry lib opts connOpts s0 = (po, pc, s2)"
    and conn: "fst (connect lib pc s2) = Inr c"
    and chan: "conn_Channel lib (trace (snd (connect lib pc s2))) c = Inr ch"
    and v: "v = cells (queueDeleteOpts s2) po"
  shows "filter is_cmd (emitted s0 (snd (QueueDelete lib queue opts connOpts s0))) =
     [ChQueueDelete ch queue (IfUnused v) (IfEmpty v) (Delete_NoWait v)
        (ch_QueueDelete lib (trace (snd (connect lib pc s2)) @ [OpenChannel c (Inr ch)]) ch
           queue (IfUnused v) (IfEmpty v) (Delete_NoWait v))]"
  using entry
proof (cases rule: QueueDelete_cases [where queue = queue])
  case (connect_failed P u e e0)
  with conn show ?thesis by simp
next
  case (channel_failed P u c' e)
  with conn chan show ?thesis by simp
next
  case (command_failed P u c' ch' num e v')
  from command_failed(2) conn have c: "c' = c" by simp
  from command_failed(2,6) chan c have ch: "ch' = ch" by simp
  show ?thesis
    using command_failed(3,4) v
    by (simp add: command_failed(2,5) c ch retry_not_cmd [OF command_failed(1)])
next
  case (deleted P u c' ch' num v')
  from deleted(2) conn have c: "c' = c" by simp
  from deleted(2,6) chan c have ch: "ch' = ch" by simp
  show ?thesis
    using deleted(3,4) v
    by (simp add: deleted(2,5) c ch retry_not_cmd [OF deleted(1)])
qed

section \<open>The claims\<close>

text \<open>
  C1.  For every queue name and every connect options (nil or not), QueueDeclare with
  \<open>opts = nil\<close> issues no queue-declare command but one for the given name with
  Durable = true, AutoDelete = false, Exclusive = false, NoWait = false and the nil table as
  Args.  It does issue it: whenever the connect step returns a connection and the library
  answers the channel-open on it with a channel, the one command of the call is that
  queue-declare command on that channel, put to the primitive right after the channel-open.
\<close>

theorem QueueDeclare_nil_opts_defaults:
  "(\<forall>ch n d a x w args r.
      ChQueueDeclare ch n d a x w args r
        \<in> set (emitted s0 (snd (QueueDeclare lib name None connOpts s0))) \<longrightarrow>
      n = name \<and> d = True \<and> a = False \<and> x = False \<and> w = False \<and> args = None) \<and>
   (\<forall>c ch.
      OpenChannel c (Inr ch) \<in> set (emitted s0 (snd (QueueDeclare lib name None connOpts s0))) \<longrightarrow>
      (\<exists>r. ChQueueDeclare ch name True False False False None r
              \<in> set (emitted s0 (snd (QueueDeclare lib name None connOpts s0))))) \<and>
   (\<forall>c ch.
      fst (connect_step lib (DeclareCall name None connOpts) s0) = Inr c \<and>
      conn_Channel lib (trace (snd (connect_step lib (DeclareCall name None connOpts) s0))) c =
        Inr ch \<longrightarrow>
      filter is_cmd (emitted s0 (snd (QueueDeclare lib name None connOpts s0))) =
        [ChQueueDeclare ch name True False False False None
           (ch_QueueDeclare lib
              (trace (snd (connect_step lib (DeclareCall name None connOpts) s0)) @
               [OpenChannel c (Inr ch)])
              ch name True False False False None)])"
  (is "?only \<and> ?opened \<and> ?issues")
proof -
  obtain po pc s2 where entry: "QueueDeclare_entry lib None connOpts s0 = (po, pc, s2)"
    by (cases "QueueDeclare_entry lib None connOpts s0")
  note dflt = QueueDeclare_entry_nil [OF entry]
  have step: "connect_step lib (DeclareCall name None connOpts) s0 = connect lib pc s2"
    by (simp add: connect_step_def entry)
  have ?issues
    unfolding step
  proof (intro allI impI, elim conjE)
    fix c ch
    assume "fst (connect lib pc s2) = Inr c"
      and "conn_Channel lib (trace (snd (connect lib pc s2))) c = Inr ch"
    from QueueDeclare_issues [OF entry this refl, of name]
    show "filter is_cmd (emitted s0 (snd (QueueDeclare lib name None connOpts s0))) =
        [ChQueueDeclare ch name True False False False None
           (ch_QueueDeclare lib (trace (snd (connect lib pc s2)) @ [OpenChannel c (Inr ch)])
              ch name True False False False None)]"
      by (simp add: dflt)
  qed
  moreover
  from entry have "?only \<and> ?opened"
  proof (cases rule: QueueDeclare_cases [where name = name])
    case (connect_failed P u e e0)
    then show ?thesis by (auto dest: retry_member)
  next
    case (channel_failed P u c e)
    then show ?thesis by (auto dest: retry_member)
  next
    case (issued P u c ch r v)
    let ?cmd = "ChQueueDeclare ch name True False False False None r"
    have ev: "emitted s0 (snd (QueueDeclare lib name None connOpts s0)) =
        P @ [Dial u (Inr c), OpenChannel c (Inr ch), ?cmd, ChClose ch, ConnClose c]"
      using issued(3,5) dflt by simp
    have mem: "?cmd \<in> set (P @ [Dial u (Inr c), OpenChannel c (Inr ch), ?cmd, ChClose ch, ConnClose c])"
      by simp
    have uniq: "\<And>c' ch'. OpenChannel c' (Inr ch') \<in> set (P @ [Dial u (Inr c), OpenChannel c (Inr ch), ?cmd, ChClose ch, ConnClose c]) \<Longrightarrow> ch' = ch"
      using issued(1) by (auto dest: retry_member)
    show ?thesis
      unfolding ev
    proof (intro conjI allI impI)
      fix c' ch'
      assume "OpenChannel c' (Inr ch') \<in> set (P @ [Dial u (Inr c), OpenChannel c (Inr ch), ?cmd, ChClose ch, ConnClose c])"
      then have "ch' = ch" by (rule uniq)
      with mem show "\<exists>r. ChQueueDeclare ch' name True False False False None r \<in> set (P @ [Dial u (Inr c), OpenChannel c (Inr ch), ?cmd, ChClose ch, ConnClose c])"
        by blast
    qed (use issued(1) in \<open>auto dest: retry_member\<close>)
  qed
  ultimately show ?thesis by blast
qed

theorem QueueDeclare_nil_opts_defaults_witness:
  "fst (connect_step broker_up (DeclareCall ''orders'' None None) world0) = Inr 7 \<and>
   conn_Channel broker_up
     (trace (snd (connect_step broker_up (DeclareCall ''orders'' None None) world0))) 7 = Inr 3 \<and>
   filter is_cmd (emitted world0 (snd (QueueDeclare broker_up ''orders'' None None world0))) =
     [ChQueueDeclare 3 ''orders'' True False False False None
        (\<lparr>Name = ''orders'', Messages = 5, Consumers = 1\<rparr>, None)] \<and>
   OpenChannel 7 (Inr 3)
     \<in> set (emitted world0 (snd (QueueDeclare broker_up ''orders'' None None world0))) \<and>
   (\<exists>r. ChQueueDeclare 3 ''orders'' True False False False None r
           \<in> set (emitted world0 (snd (QueueDeclare broker_up ''orders'' None None world0))))"
proof -
  have a: "fst (connect_step broker_up (DeclareCall ''orders'' None None) world0) = Inr 7"
    by code_simp
  have b: "conn_Channel broker_up
     (trace (snd (connect_step broker_up (DeclareCall ''orders'' None None) world0))) 7 = Inr 3"
    by (simp add: broker_up_def)
  have c: "\<And>tr. ch_QueueDeclare broker_up tr 3 ''orders'' True False False False None =
     (\<lparr>Name = ''orders'', Messages = 5, Consumers = 1\<rparr>, None)"
    by (simp add: broker_up_def)
  have d: "OpenChannel 7 (Inr 3)
     \<in> set (emitted world0 (snd (QueueDeclare broker_up ''orders'' None None world0)))"
    by code_simp
  from a b QueueDeclare_nil_opts_defaults [of world0 broker_up "''orders''" None]
  have "filter is_cmd (emitted world0 (snd (QueueDeclare broker_up ''orders'' None None world0))) =
     [ChQueueDeclare 3 ''orders'' True False False False None
        (ch_QueueDeclare broker_up
           (trace (snd (connect_step broker_up (DeclareCall ''orders'' None None) world0)) @
            [OpenChannel 7 (Inr 3)])
           3 ''orders'' True False False False None)]"
    by blast
  then have "filter is_cmd (emitted world0 (snd (QueueDeclare broker_up ''orders'' None None world0))) =
     [ChQueueDeclare 3 ''orders'' True False False False None
        (\<lparr>Name = ''orders'', Messages = 5, Consumers = 1\<rparr>, None)]"
    by (simp only: c)
  moreover
  from d QueueDeclare_nil_opts_defaults [of world0 broker_up "''orders''" None]
  have "\<exists>r. ChQueueDeclare 3 ''orders'' True False False False None r
           \<in> set (emitted world0 (snd (QueueDeclare broker_up ''orders'' None None world0)))"
    by blast
  ultimately show ?thesis using a b d by blast
qed

text \<open>
  C2.  For each of QueueDeclare, QueueBind, QueueDelete and QueuePurge (every \<open>call\<close>):
  at most one broker command is issued; a command is issued only after a successful dial and
  a successful channel-open on that connection, and on the channel so obtained; if the
  connect step fails the call returns exactly its error and leaves the world as connect left
  it; if the channel-open fails the call returns exactly its error and only the deferred
  close of the connection follows; if the command fails the call returns exactly its error
  and only the deferred closes follow.
\<close>

theorem queue_ops_fail_fast:
  "length (filter is_cmd (call_events lib call s0)) \<le> 1 \<and>
   (\<forall>pre cmd post. call_events lib call s0 = pre @ cmd # post \<and> is_cmd cmd \<longrightarrow>
      (\<exists>pre1 u c pre2 pre3.
         pre = pre1 @ Dial u (Inr c) # pre2 @ OpenChannel c (Inr (cmd_chan cmd)) # pre3)) \<and>
   (\<forall>e s3. connect lib (fst (connect_site lib call s0)) (snd (connect_site lib call s0)) = (Inl e, s3)
      \<longrightarrow> call_error lib call s0 = Some e \<and> snd (run lib call s0) = s3) \<and>
   (\<forall>pre c e post. call_events lib call s0 = pre @ OpenChannel c (Inl e) # post \<longrightarrow>
      call_error lib call s0 = Some e \<and> post = [ConnClose c]) \<and>
   (\<forall>pre cmd post e. call_events lib call s0 = pre @ cmd # post \<and> is_cmd cmd \<and> cmd_err cmd = Some e
      \<longrightarrow> call_error lib call s0 = Some e \<and> list_all is_release post)"
  (is "?one \<and> ?guarded \<and> ?connect \<and> ?channel \<and> ?command")
proof -
  obtain pc s2 where site: "connect_site lib call s0 = (pc, s2)"
    by (cases "connect_site lib call s0")
  from site show ?thesis
  proof (cases rule: run_cases)
    case (connect_failed P u e e0)
    have ev: "call_events lib call s0 = P @ [Dial u (Inl e0)]"
      by (simp add: call_events_def connect_failed(3))
    have r: "list_all is_retry (P @ [Dial u (Inl e0)])"
      using connect_failed(1) by simp
    have ?one
      using retry_not_cmd [OF r] by (simp only: ev list.size)
    moreover have ?guarded
      by (auto simp: ev split_retry_only [OF r] cmd_not_retry)
    moreover have ?connect
      by (simp add: site connect_failed call_error_def)
    moreover have ?channel
      by (auto simp: ev split_retry_only [OF r])
    moreover have ?command
      by (auto simp: ev split_retry_only [OF r] cmd_not_retry)
    ultimately show ?thesis by blast
  next
    case (channel_failed P u c e)
    note P = channel_failed(1)
    have ev: "call_events lib call s0 =
        P @ [Dial u (Inr c), OpenChannel c (Inl e), ConnClose c]"
      by (simp add: call_events_def channel_failed(3))
    have err: "call_error lib call s0 = Some e"
      by (simp add: call_error_def channel_failed(3))
    have ?one
      by (simp add: ev retry_not_cmd [OF P])
    moreover have ?guarded
      by (auto simp: ev split_retry_iff [OF P] cmd_not_retry Cons_eq_append_conv)
    moreover have ?connect
      by (simp add: site channel_failed)
    moreover have ?channel
      by (auto simp: ev err split_retry_iff [OF P] Cons_eq_append_conv)
    moreover have ?command
      by (auto simp: ev split_retry_iff [OF P] cmd_not_retry Cons_eq_append_conv)
    ultimately show ?thesis by blast
  next
    case (command P u c ch cmd)
    note P = command(1)
    have ev: "call_events lib call s0 =
        P @ [Dial u (Inr c), OpenChannel c (Inr ch), cmd, ChClose ch, ConnClose c]"
      by (simp add: call_events_def command(5))
    have err: "call_error lib call s0 = cmd_err cmd"
      by (simp add: call_error_def command(5))
    have ncmd: "\<not> is_retry cmd" using command(3) by (rule cmd_not_retry)
    have ?one
      by (simp add: ev retry_not_cmd [OF P])
    moreover have ?guarded
      using command(3,4)
      by (auto simp: ev split_retry_iff [OF P] cmd_not_retry Cons_eq_append_conv
            intro!: acquired_intro [where xs = P and ys = "[]" and zs = "[]"])
    moreover have ?connect
      by (simp add: site command)
    moreover have ?channel
      using command(3)
      by (auto simp: ev err split_retry_iff [OF P] Cons_eq_append_conv)
    moreover have ?command
      using command(3)
      by (auto simp: ev err split_retry_iff [OF P] cmd_not_retry Cons_eq_append_conv)
    ultimately show ?thesis by blast
  next
    case (logged P u c ch cmd fmt args)
    note P = logged(1)
    have ev: "call_events lib call s0 =
        P @ [Dial u (Inr c), OpenChannel c (Inr ch), cmd, LogPrintf fmt args,
             ChClose ch, ConnClose c]"
      by (simp add: call_events_def logged(6))
    have err: "call_error lib call s0 = None"
      by (simp add: call_error_def logged(6))
    have ?one
      by (simp add: ev retry_not_cmd [OF P])
    moreover have ?guarded
      using logged(3,4)
      by (auto simp: ev split_retry_iff [OF P] cmd_not_retry Cons_eq_append_conv
            intro!: acquired_intro [where xs = P and ys = "[]" and zs = "[]"])
    moreover have ?connect
      by (simp add: site logged)
    moreover have ?channel
      using logged(3)
      by (auto simp: ev err split_retry_iff [OF P] Cons_eq_append_conv)
    moreover have ?command
      using logged(3,5)
      by (auto simp: ev err split_retry_iff [OF P] cmd_not_retry Cons_eq_append_conv)
    ultimately show ?thesis by blast
  qed
qed

theorem queue_ops_fail_fast_witness:
  "(call_events no_channel (BindCall ''ex'' ''orders'' ''k'' None None) world0 =
      [Dial ''amqp://localhost'' (Inr 7)] @ OpenChannel 7 (Inl (AmqpError ''channel'')) # [ConnClose 7] \<and>
    call_error no_channel (BindCall ''ex'' ''orders'' ''k'' None None) world0 =
      Some (AmqpError ''channel'')) \<and>
   (call_events rejecting (DeleteCall ''orders'' None None) world0 =
      [Dial ''amqp://localhost'' (Inr 7), OpenChannel 7 (Inr 3)] @
      ChQueueDelete 3 ''orders'' False False False (0, Some (AmqpError ''not found'')) #
      [ChClose 3, ConnClose 7] \<and>
    call_error rejecting (DeleteCall ''orders'' None None) world0 = Some (AmqpError ''not found'')) \<and>
   (fst (connect broker_down (fst (connect_site broker_down (PurgeCall ''orders'' False None) world0))
           (snd (connect_site broker_down (PurgeCall ''orders'' False None) world0))) =
      Inl (RetriesExhausted (AmqpError ''refused'')) \<and>
    call_error broker_down (PurgeCall ''orders'' False None) world0 =
      Some (RetriesExhausted (AmqpError ''refused'')))"
proof -
  have a: "call_events no_channel (BindCall ''ex'' ''orders'' ''k'' None None) world0 =
      [Dial ''amqp://localhost'' (Inr 7)] @ OpenChannel 7 (Inl (AmqpError ''channel'')) # [ConnClose 7]"
    by code_simp
  have b: "call_events rejecting (DeleteCall ''orders'' None None) world0 =
      [Dial ''amqp://localhost'' (Inr 7), OpenChannel 7 (Inr 3)] @
      ChQueueDelete 3 ''orders'' False False False (0, Some (AmqpError ''not found'')) #
      [ChClose 3, ConnClose 7]"
    by code_simp
  have b': "is_cmd (ChQueueDelete 3 ''orders'' False False False (0, Some (AmqpError ''not found''))) \<and>
     cmd_err (ChQueueDelete 3 ''orders'' False False False (0, Some (AmqpError ''not found''))) =
       Some (AmqpError ''not found'')"
    by simp
  have c: "fst (connect broker_down (fst (connect_site broker_down (PurgeCall ''orders'' False None) world0))
           (snd (connect_site broker_down (PurgeCall ''orders'' False None) world0))) =
      Inl (RetriesExhausted (AmqpError ''refused''))"
    by code_simp
  from a queue_ops_fail_fast [of no_channel "BindCall ''ex'' ''orders'' ''k'' None None" world0]
  have "call_error no_channel (BindCall ''ex'' ''orders'' ''k'' None None) world0 =
      Some (AmqpError ''channel'')"
    by blast
  moreover
  from b b' queue_ops_fail_fast [of rejecting "DeleteCall ''orders'' None None" world0]
  have "call_error rejecting (DeleteCall ''orders'' None None) world0 = Some (AmqpError ''not found'')"
    by blast
  moreover
  from c queue_ops_fail_fast [of broker_down "PurgeCall ''orders'' False None" world0]
  have "call_error broker_down (PurgeCall ''orders'' False None) world0 =
      Some (RetriesExhausted (AmqpError ''refused''))"
    by (metis prod.collapse)
  ultimately show ?thesis using a b c by blast
qed

text \<open>
  C3.  For each of QueueDeclare, QueueBind, QueueDelete and QueuePurge (every \<open>call\<close>), on
  every path: each connection that a dial opened is closed later in the same call; each
  channel that was opened is closed later in the same call, the connection it belongs to is
  not closed before that and is closed after it; and no connection or channel is open when
  the call returns.
\<close>

theorem queue_ops_release:
  "(\<forall>pre u c post. call_events lib call s0 = pre @ Dial u (Inr c) # post \<longrightarrow>
      ConnClose c \<in> set post) \<and>
   (\<forall>pre c ch post. call_events lib call s0 = pre @ OpenChannel c (Inr ch) # post \<longrightarrow>
      (\<exists>mid rest. post = mid @ ChClose ch # rest \<and> ConnClose c \<notin> set (pre @ mid) \<and>
         ConnClose c \<in> set rest)) \<and>
   still_open (call_events lib call s0) = ([], [])"
  (is "?conn \<and> ?chan \<and> ?none")
proof -
  obtain pc s2 where site: "connect_site lib call s0 = (pc, s2)"
    by (cases "connect_site lib call s0")
  from site show ?thesis
  proof (cases rule: run_cases)
    case (connect_failed P u e e0)
    have ev: "call_events lib call s0 = P @ [Dial u (Inl e0)]"
      by (simp add: call_events_def connect_failed(3))
    have r: "list_all is_retry (P @ [Dial u (Inl e0)])"
      using connect_failed(1) by simp
    have ?conn
      by (auto simp: ev split_retry_only [OF r])
    moreover have ?chan
      by (auto simp: ev split_retry_only [OF r])
    moreover have ?none
      unfolding ev still_open_def by (rule fold_track_retry [OF r])
    ultimately show ?thesis by blast
  next
    case (channel_failed P u c e)
    note P = channel_failed(1)
    have ev: "call_events lib call s0 =
        P @ [Dial u (Inr c), OpenChannel c (Inl e), ConnClose c]"
      by (simp add: call_events_def channel_failed(3))
    have ?conn
      by (auto simp: ev split_retry_iff [OF P] Cons_eq_append_conv)
    moreover have ?chan
      by (auto simp: ev split_retry_iff [OF P] Cons_eq_append_conv)
    moreover have ?none
      by (simp add: ev still_open_def fold_track_retry [OF P])
    ultimately show ?thesis by blast
  next
    case (command P u c ch cmd)
    note P = command(1)
    have ev: "call_events lib call s0 =
        P @ [Dial u (Inr c), OpenChannel c (Inr ch), cmd, ChClose ch, ConnClose c]"
      by (simp add: call_events_def command(5))
    have ?conn
      using command(3)
      by (auto simp: ev split_retry_iff [OF P] Cons_eq_append_conv)
    moreover have ?chan
    proof (intro allI impI)
      fix pre c' ch' post
      assume eq: "call_events lib call s0 = pre @ OpenChannel c' (Inr ch') # post"
      have nr: "\<not> is_retry (OpenChannel c' (Inr ch'))" by simp
      from split_after_retry [OF P nr eq [unfolded ev]] obtain q where q: "pre = P @ q"
        "[Dial u (Inr c), OpenChannel c (Inr ch), cmd, ChClose ch, ConnClose c] =
           q @ OpenChannel c' (Inr ch') # post"
        by blast
      from q(2) command(3)
      have "q = [Dial u (Inr c)] \<and> c' = c \<and> ch' = ch \<and> post = [cmd] @ ChClose ch # [ConnClose c]"
        by (auto simp: Cons_eq_append_conv)
      with q(1) command(3) retry_no_close [OF P, of c]
      show "\<exists>mid rest. post = mid @ ChClose ch' # rest \<and> ConnClose c' \<notin> set (pre @ mid) \<and>
              ConnClose c' \<in> set rest"
        by (intro exI [of _ "[cmd]"] exI [of _ "[ConnClose c]"]) auto
    qed
    moreover have ?none
      by (simp add: ev still_open_def fold_track_retry [OF P] track_cmd [OF command(3)])
    ultimately show ?thesis by blast
  next
    case (logged P u c ch cmd fmt args)
    note P = logged(1)
    have ev: "call_events lib call s0 =
        P @ [Dial u (Inr c), OpenChannel c (Inr ch), cmd, LogPrintf fmt args,
             ChClose ch, ConnClose c]"
      by (simp add: call_events_def logged(6))
    have ?conn
      using logged(3)
      by (auto simp: ev split_retry_iff [OF P] Cons_eq_append_conv)
    moreover have ?chan
    proof (intro allI impI)
      fix pre c' ch' post
      assume eq: "call_events lib call s0 = pre @ OpenChannel c' (Inr ch') # post"
      have nr: "\<not> is_retry (OpenChannel c' (Inr ch'))" by simp
      from split_after_retry [OF P nr eq [unfolded ev]] obtain q where q: "pre = P @ q"
        "[Dial u (Inr c), OpenChannel c (Inr ch), cmd, LogPrintf fmt args, ChClose ch, ConnClose c] =
           q @ OpenChannel c' (Inr ch') # post"
        by blast
      from q(2) logged(3)
      have "q = [Dial u (Inr c)] \<and> c' = c \<and> ch' = ch \<and>
            post = [cmd, LogPrintf fmt args] @ ChClose ch # [ConnClose c]"
        by (auto simp: Cons_eq_append_conv)
      with q(1) logged(3) retry_no_close [OF P, of c]
      show "\<exists>mid rest. post = mid @ ChClose ch' # rest \<and> ConnClose c' \<notin> set (pre @ mid) \<and>
              ConnClose c' \<in> set rest"
        by (intro exI [of _ "[cmd, LogPrintf fmt args]"] exI [of _ "[ConnClose c]"]) auto
    qed
    moreover have ?none
      by (simp add: ev still_open_def fold_track_retry [OF P] track_cmd [OF logged(3)])
    ultimately show ?thesis by blast
  qed
qed

theorem queue_ops_release_witness:
  "call_events broker_up (DeleteCall ''orders'' None None) world0 =
     [] @ Dial ''amqp://localhost'' (Inr 7) #
     [OpenChannel 7 (Inr 3), ChQueueDelete 3 ''orders'' False False False (4, None),
      LogPrintf ''Queue [%s] deleted. %d messages purged.\<newline>'' [LogStr ''orders'', LogInt 4],
      ChClose 3, ConnClose 7] \<and>
   ConnClose 7 \<in> set [OpenChannel 7 (Inr 3), ChQueueDelete 3 ''orders'' False False False (4, None),
      LogPrintf ''Queue [%s] deleted. %d messages purged.\<newline>'' [LogStr ''orders'', LogInt 4],
      ChClose 3, ConnClose 7] \<and>
   call_events no_channel (DeclareCall ''orders'' None None) world0 =
     [] @ Dial ''amqp://localhost'' (Inr 7) # [OpenChannel 7 (Inl (AmqpError ''channel'')), ConnClose 7] \<and>
   ConnClose 7 \<in> set [OpenChannel 7 (Inl (AmqpError ''channel'')), ConnClose 7] \<and>
   still_open (call_events no_channel (DeclareCall ''orders'' None None) world0) = ([], [])"
proof -
  have a: "call_events broker_up (DeleteCall ''orders'' None None) world0 =
     [] @ Dial ''amqp://localhost'' (Inr 7) #
     [OpenChannel 7 (Inr 3), ChQueueDelete 3 ''orders'' False False False (4, None),
      LogPrintf ''Queue [%s] deleted. %d messages purged.\<newline>'' [LogStr ''orders'', LogInt 4],
      ChClose 3, ConnClose 7]"
    by code_simp
  have b: "call_events no_channel (DeclareCall ''orders'' None None) world0 =
     [] @ Dial ''amqp://localhost'' (Inr 7) # [OpenChannel 7 (Inl (AmqpError ''channel'')), ConnClose 7]"
    by code_simp
  from a queue_ops_release [of broker_up "DeleteCall ''orders'' None None" world0]
  have "ConnClose 7 \<in> set [OpenChannel 7 (Inr 3), ChQueueDelete 3 ''orders'' False False False (4, None),
      LogPrintf ''Queue [%s] deleted. %d messages purged.\<newline>'' [LogStr ''orders'', LogInt 4],
      ChClose 3, ConnClose 7]"
    by blast
  moreover
  from b queue_ops_release [of no_channel "DeclareCall ''orders'' None None" world0]
  have "ConnClose 7 \<in> set [OpenChannel 7 (Inl (AmqpError ''channel'')), ConnClose 7]"
    by blast
  moreover
  from queue_ops_release [of no_channel "DeclareCall ''orders'' None None" world0]
  have "still_open (call_events no_channel (DeclareCall ''orders'' None None) world0) = ([], [])"
    by blast
  ultimately show ?thesis using a b by blast
qed

text \<open>
  C4.  QueueBind with \<open>opts = nil\<close> issues its bind command with NoWait = false and the nil
  table as Args, and QueueDelete with \<open>opts = nil\<close> issues its delete command with
  IfUnused = false, IfEmpty = false and NoWait = false.  Each does issue it: whenever the
  connect step returns a connection and the library answers the channel-open on it with a
  channel, the one command of the call is that command on that channel, put to the
  primitive right after the channel-open.
\<close>

theorem QueueBind_QueueDelete_nil_opts_defaults:
  "(\<forall>ch n k x w args r.
      ChQueueBind ch n k x w args r
        \<in> set (emitted s0 (snd (QueueBind lib exchange queue key None connOpts s0))) \<longrightarrow>
      w = False \<and> args = None) \<and>
   (\<forall>c ch.
      OpenChannel c (Inr ch)
        \<in> set (emitted s0 (snd (QueueBind lib exchange queue key None connOpts s0))) \<longrightarrow>
      (\<exists>r. ChQueueBind ch queue key exchange False None r
              \<in> set (emitted s0 (snd (QueueBind lib exchange queue key None connOpts s0))))) \<and>
   (\<forall>ch n u e w r.
      ChQueueDelete ch n u e w r
        \<in> set (emitted s1 (snd (QueueDelete lib dqueue None dconnOpts s1))) \<longrightarrow>
      u = False \<and> e = False \<and> w = False) \<and>
   (\<forall>c ch.
      OpenChannel c (Inr ch) \<in> set (emitted s1 (snd (QueueDelete lib dqueue None dconnOpts s1))) \<longrightarrow>
      (\<exists>r. ChQueueDelete ch dqueue False False False r
              \<in> set (emitted s1 (snd (QueueDelete lib dqueue None dconnOpts s1))))) \<and>
   (\<forall>c ch.
      fst (connect_step lib (BindCall exchange queue key None connOpts) s0) = Inr c \<and>
      conn_Channel lib
        (trace (snd (connect_step lib (BindCall exchange queue key None connOpts) s0))) c =
        Inr ch \<longrightarrow>
      filter is_cmd (emitted s0 (snd (QueueBind lib exchange queue key None connOpts s0))) =
        [ChQueueBind ch queue key exchange False None
           (ch_QueueBind lib
              (trace (snd (connect_step lib (BindCall exchange queue key None connOpts) s0)) @
               [OpenChannel c (Inr ch)])
              ch queue key exchange False None)]) \<and>
   (\<forall>c ch.
      fst (connect_step lib (DeleteCall dqueue None dconnOpts) s1) = Inr c \<and>
      conn_Channel lib (trace (snd (connect_step lib (DeleteCall dqueue None dconnOpts) s1))) c =
        Inr ch \<longrightarrow>
      filter is_cmd (emitted s1 (snd (QueueDelete lib dqueue None dconnOpts s1))) =
        [ChQueueDelete ch dqueue False False False
           (ch_QueueDelete lib
              (trace (snd (connect_step lib (DeleteCall dqueue None dconnOpts) s1)) @
               [OpenChannel c (Inr ch)])
              ch dqueue False False False)])"
  (is "?b1 \<and> ?b2 \<and> ?d1 \<and> ?d2 \<and> ?b3 \<and> ?d3")
proof -
  obtain po pc s2 where entry: "QueueBind_entry lib None connOpts s0 = (po, pc, s2)"
    by (cases "QueueBind_entry lib None connOpts s0")
  note dflt = QueueBind_entry_nil [OF entry]
  have step: "connect_step lib (BindCall exchange queue key None connOpts) s0 = connect lib pc s2"
    by (simp add: connect_step_def entry)
  have ?b3
    unfolding step
  proof (intro allI impI, elim conjE)
    fix c ch
    assume "fst (connect lib pc s2) = Inr c"
      and "conn_Channel lib (trace (snd (connect lib pc s2))) c = Inr ch"
    from QueueBind_issues [OF entry this refl, of exchange queue key]
    show "filter is_cmd (emitted s0 (snd (QueueBind lib exchange queue key None connOpts s0))) =
        [ChQueueBind ch queue key exchange False None
           (ch_QueueBind lib (trace (snd (connect lib pc s2)) @ [OpenChannel c (Inr ch)])
              ch queue key exchange False None)]"
      by (simp add: dflt)
  qed
  moreover
  from entry have "?b1 \<and> ?b2"
  proof (cases rule: QueueBind_cases [where exchange = exchange and queue = queue and key = key])
    case (connect_failed P u e e0)
    then show ?thesis by (auto dest: retry_member)
  next
    case (channel_failed P u c e)
    then show ?thesis by (auto dest: retry_member)
  next
    case (issued P u c ch r v)
    let ?cmd = "ChQueueBind ch queue key exchange False None r"
    have ev: "emitted s0 (snd (QueueBind lib exchange queue key None connOpts s0)) =
        P @ [Dial u (Inr c), OpenChannel c (Inr ch), ?cmd, ChClose ch, ConnClose c]"
      using issued(3,5) dflt by simp
    have mem: "?cmd \<in> set (P @ [Dial u (Inr c), OpenChannel c (Inr ch), ?cmd, ChClose ch, ConnClose c])"
      by simp
    have uniq: "\<And>c' ch'. OpenChannel c' (Inr ch') \<in> set (P @ [Dial u (Inr c), OpenChannel c (Inr ch), ?cmd, ChClose ch, ConnClose c]) \<Longrightarrow> ch' = ch"
      using issued(1) by (auto dest: retry_member)
    show ?thesis
      unfolding ev
    proof (intro conjI allI impI)
      fix c' ch'
      assume "OpenChannel c' (Inr ch') \<in> set (P @ [Dial u (Inr c), OpenChannel c (Inr ch), ?cmd, ChClose ch, ConnClose c])"
      then have "ch' = ch" by (rule uniq)
      with mem show "\<exists>r. ChQueueBind ch' queue key exchange False None r \<in> set (P @ [Dial u (Inr c), OpenChannel c (Inr ch), ?cmd, ChClose ch, ConnClose c])"
        by blast
    qed (use issued(1) in \<open>auto dest: retry_member\<close>)
  qed
  moreover
  obtain qo qc s3 where dentry: "QueueDelete_entry lib None dconnOpts s1 = (qo, qc, s3)"
    by (cases "QueueDelete_entry lib None dconnOpts s1")
  note ddflt = QueueDelete_entry_nil [OF dentry]
  have dstep: "connect_step lib (DeleteCall dqueue None dconnOpts) s1 = connect lib qc s3"
    by (simp add: connect_step_def dentry)
  have ?d3
    unfolding dstep
  proof (intro allI impI, elim conjE)
    fix c ch
    assume "fst (connect lib qc s3) = Inr c"
      and "conn_Channel lib (trace (snd (connect lib qc s3))) c = Inr ch"
    from QueueDelete_issues [OF dentry this refl, of dqueue]
    show "filter is_cmd (emitted s1 (snd (QueueDelete lib dqueue None dconnOpts s1))) =
        [ChQueueDelete ch dqueue False False False
           (ch_QueueDelete lib (trace (snd (connect lib qc s3)) @ [OpenChannel c (Inr ch)])
              ch dqueue False False False)]"
      by (simp add: ddflt)
  qed
  moreover
  from dentry have "?d1 \<and> ?d2"
  proof (cases rule: QueueDelete_cases [where queue = dqueue])
    case (connect_failed P u e e0)
    then show ?thesis by (auto dest: retry_member)
  next
    case (channel_failed P u c e)
    then show ?thesis by (auto dest: retry_member)
  next
    case (command_failed P u c ch num e v)
    let ?cmd = "ChQueueDelete ch dqueue False False False (num, Some e)"
    have ev: "emitted s1 (snd (QueueDelete lib dqueue None dconnOpts s1)) =
        P @ [Dial u (Inr c), OpenChannel c (Inr ch), ?cmd, ChClose ch, ConnClose c]"
      using command_failed(3,5) ddflt by simp
    have mem: "?cmd \<in> set (P @ [Dial u (Inr c), OpenChannel c (Inr ch), ?cmd, ChClose ch, ConnClose c])"
      by simp
    have uniq: "\<And>c' ch'. OpenChannel c' (Inr ch') \<in> set (P @ [Dial u (Inr c), OpenChannel c (Inr ch), ?cmd, ChClose ch, ConnClose c]) \<Longrightarrow> ch' = ch"
      using command_failed(1) by (auto dest: retry_member)
    show ?thesis
      unfolding ev
    proof (intro conjI allI impI)
      fix c' ch'
      assume "OpenChannel c' (Inr ch') \<in> set (P @ [Dial u (Inr c), OpenChannel c (Inr ch), ?cmd, ChClose ch, ConnClose c])"
      then have "ch' = ch" by (rule uniq)
      with mem show "\<exists>r. ChQueueDelete ch' dqueue False False False r \<in> set (P @ [Dial u (Inr c), OpenChannel c (Inr ch), ?cmd, ChClose ch, ConnClose c])"
        by blast
    qed (use command_failed(1) in \<open>auto dest: retry_member\<close>)
  next
    case (deleted P u c ch num v)
    let ?cmd = "ChQueueDelete ch dqueue False False False (num, None)"
    let ?log = "LogPrintf ''Queue [%s] deleted. %d messages purged.\<newline>'' [LogStr dqueue, LogInt num]"
    have ev: "emitted s1 (snd (QueueDelete lib dqueue None dconnOpts s1)) =
        P @ [Dial u (Inr c), OpenChannel c (Inr ch), ?cmd, ?log, ChClose ch, ConnClose c]"
      using deleted(3,5) ddflt by simp
    have mem: "?cmd \<in> set (P @ [Dial u (Inr c), OpenChannel c (Inr ch), ?cmd, ?log, ChClose ch, ConnClose c])"
      by simp
    have uniq: "\<And>c' ch'. OpenChannel c' (Inr ch') \<in> set (P @ [Dial u (Inr c), OpenChannel c (Inr ch), ?cmd, ?log, ChClose ch, ConnClose c]) \<Longrightarrow> ch' = ch"
      using deleted(1) by (auto dest: retry_member)
    show ?thesis
      unfolding ev
    proof (intro conjI allI impI)
      fix c' ch'
      assume "OpenChannel c' (Inr ch') \<in> set (P @ [Dial u (Inr c), OpenChannel c (Inr ch), ?cmd, ?log, ChClose ch, ConnClose c])"
      then have "ch' = ch" by (rule uniq)
      with mem show "\<exists>r. ChQueueDelete ch' dqueue False False False r \<in> set (P @ [Dial u (Inr c), OpenChannel c (Inr ch), ?cmd, ?log, ChClose ch, ConnClose c])"
        by blast
    qed (use deleted(1) in \<open>auto dest: retry_member\<close>)
  qed
  ultimately show ?thesis by blast
qed

theorem QueueBind_QueueDelete_nil_opts_defaults_witness:
  "(fst (connect_step broker_up (BindCall ''logs'' ''orders'' ''k'' None None) world0) = Inr 7 \<and>
    conn_Channel broker_up
      (trace (snd (connect_step broker_up (BindCall ''logs'' ''orders'' ''k'' None None) world0))) 7 =
      Inr 3 \<and>
    filter is_cmd
      (emitted world0 (snd (QueueBind broker_up ''logs'' ''orders'' ''k'' None None world0))) =
      [ChQueueBind 3 ''orders'' ''k'' ''logs'' False None None]) \<and>
   (fst (connect_step broker_up (DeleteCall ''orders'' None None) world0) = Inr 7 \<and>
    conn_Channel broker_up
      (trace (snd (connect_step broker_up (DeleteCall ''orders'' None None) world0))) 7 = Inr 3 \<and>
    filter is_cmd (emitted world0 (snd (QueueDelete broker_up ''orders'' None None world0))) =
      [ChQueueDelete 3 ''orders'' False False False (4, None)])"
proof -
  have a: "fst (connect_step broker_up (BindCall ''logs'' ''orders'' ''k'' None None) world0) = Inr 7"
    by code_simp
  have b: "conn_Channel broker_up
      (trace (snd (connect_step broker_up (BindCall ''logs'' ''orders'' ''k'' None None) world0))) 7 =
      Inr 3"
    by (simp add: broker_up_def)
  have c: "\<And>tr. ch_QueueBind broker_up tr 3 ''orders'' ''k'' ''logs'' False None = None"
    by (simp add: broker_up_def)
  have a': "fst (connect_step broker_up (DeleteCall ''orders'' None None) world0) = Inr 7"
    by code_simp
  have b': "conn_Channel broker_up
      (trace (snd (connect_step broker_up (DeleteCall ''orders'' None None) world0))) 7 = Inr 3"
    by (simp add: broker_up_def)
  have c': "\<And>tr. ch_QueueDelete broker_up tr 3 ''orders'' False False False = (4, None)"
    by (simp add: broker_up_def)
  note inst = QueueBind_QueueDelete_nil_opts_defaults
      [of world0 broker_up "''logs''" "''orders''" "''k''" None world0 "''orders''" None]
  from a b inst
  have "filter is_cmd
      (emitted world0 (snd (QueueBind broker_up ''logs'' ''orders'' ''k'' None None world0))) =
      [ChQueueBind 3 ''orders'' ''k'' ''logs'' False None
         (ch_QueueBind broker_up
            (trace (snd (connect_step broker_up (BindCall ''logs'' ''orders'' ''k'' None None) world0)) @
             [OpenChannel 7 (Inr 3)])
            3 ''orders'' ''k'' ''logs'' False None)]"
    by blast
  then have "filter is_cmd
      (emitted world0 (snd (QueueBind broker_up ''logs'' ''orders'' ''k'' None None world0))) =
      [ChQueueBind 3 ''orders'' ''k'' ''logs'' False None None]"
    by (simp only: c)
  moreover
  from a' b' inst
  have "filter is_cmd (emitted world0 (snd (QueueDelete broker_up ''orders'' None None world0))) =
      [ChQueueDelete 3 ''orders'' False False False
         (ch_QueueDelete broker_up
            (trace (snd (connect_step broker_up (DeleteCall ''orders'' None None) world0)) @
             [OpenChannel 7 (Inr 3)])
            3 ''orders'' False False False)]"
    by blast
  then have "filter is_cmd (emitted world0 (snd (QueueDelete broker_up ''orders'' None None world0))) =
      [ChQueueDelete 3 ''orders'' False False False (4, None)]"
    by (simp only: c')
  ultimately show ?thesis using a b a' b' by blast
qed

text \<open>
  C5.  Wherever the trace of a QueueDeclare call holds a queue-declare command, the answer
  recorded with it is the answer of the channel-level primitive to exactly that call, and
  when this answer carries no error, QueueDeclare returns the descriptor of the answer
  together with the nil error.
\<close>

theorem QueueDeclare_returns_descriptor:
  "\<forall>pre ch n d a x w args r post.
     emitted s0 (snd (QueueDeclare lib name opts connOpts s0)) =
       pre @ ChQueueDeclare ch n d a x w args r # post \<longrightarrow>
     r = ch_QueueDeclare lib (trace s0 @ pre) ch n d a x w args \<and>
     (snd r = None \<longrightarrow> fst (QueueDeclare lib name opts connOpts s0) = (fst r, None))"
proof -
  obtain po pc s2 where entry: "QueueDeclare_entry lib opts connOpts s0 = (po, pc, s2)"
    by (cases "QueueDeclare_entry lib opts connOpts s0")
  from entry show ?thesis
  proof (cases rule: QueueDeclare_cases [where name = name])
    case (connect_failed P u e e0)
    have r: "list_all is_retry (P @ [Dial u (Inl e0)])"
      using connect_failed(1) by simp
    show ?thesis
      by (auto simp: connect_failed(3) split_retry_only [OF r])
  next
    case (channel_failed P u c e)
    show ?thesis
      by (auto simp: channel_failed(3) split_retry_iff [OF channel_failed(1)] Cons_eq_append_conv)
  next
    case (issued P u c ch r v)
    show ?thesis
      using issued(4)
      by (auto simp: issued(5) split_retry_iff [OF issued(1)] Cons_eq_append_conv)
  qed
qed

theorem QueueDeclare_returns_descriptor_witness:
  "emitted world0 (snd (QueueDeclare broker_up ''orders'' None None world0)) =
     [Dial ''amqp://localhost'' (Inr 7), OpenChannel 7 (Inr 3)] @
     ChQueueDeclare 3 ''orders'' True False False False None
       (\<lparr>Name = ''orders'', Messages = 5, Consumers = 1\<rparr>, None) #
     [ChClose 3, ConnClose 7] \<and>
   fst (QueueDeclare broker_up ''orders'' None None world0) =
     (\<lparr>Name = ''orders'', Messages = 5, Consumers = 1\<rparr>, None)"
proof -
  have a: "emitted world0 (snd (QueueDeclare broker_up ''orders'' None None world0)) =
     [Dial ''amqp://localhost'' (Inr 7), OpenChannel 7 (Inr 3)] @
     ChQueueDeclare 3 ''orders'' True False False False None
       (\<lparr>Name = ''orders'', Messages = 5, Consumers = 1\<rparr>, None) #
     [ChClose 3, ConnClose 7]"
    by code_simp
  from a QueueDeclare_returns_descriptor [of world0 broker_up "''orders''" None None]
  have "snd (\<lparr>Name = ''orders'', Messages = 5, Consumers = 1\<rparr>, None :: error option) = None \<longrightarrow>
     fst (QueueDeclare broker_up ''orders'' None None world0) =
       (fst (\<lparr>Name = ''orders'', Messages = 5, Consumers = 1\<rparr>, None :: error option), None)"
    by blast
  with a show ?thesis by simp
qed

text \<open>
  C6.  QueueDelete and QueuePurge return a single error value.  When the delete (purge)
  command answers a count with no error, the call returns nil and the next thing it does is
  to log that count, the count being what the channel-level primitive answered to exactly
  that command.  The count is no part of what is returned: replacing the counts the broker
  answers by any others leaves the returned value the same.
\<close>

theorem QueueDelete_QueuePurge_count_logged_not_returned:
  "(\<forall>pre ch n u e w num post.
      emitted s0 (snd (QueueDelete lib queue opts connOpts s0)) =
        pre @ ChQueueDelete ch n u e w (num, None) # post \<longrightarrow>
      fst (QueueDelete lib queue opts connOpts s0) = None \<and>
      ch_QueueDelete lib (trace s0 @ pre) ch n u e w = (num, None) \<and>
      (\<exists>rest. post =
         LogPrintf ''Queue [%s] deleted. %d messages purged.\<newline>'' [LogStr queue, LogInt num] # rest)) \<and>
   fst (QueueDelete
          (lib\<lparr>ch_QueueDelete :=
                 \<lambda>tr ch n u e w. (g tr ch n u e w, snd (ch_QueueDelete lib tr ch n u e w))\<rparr>)
          queue opts connOpts s0) =
     fst (QueueDelete lib queue opts connOpts s0) \<and>
   (\<forall>pre ch n w num post.
      emitted s1 (snd (QueuePurge lib pqueue noWait pconnOpts s1)) =
        pre @ ChQueuePurge ch n w (num, None) # post \<longrightarrow>
      fst (QueuePurge lib pqueue noWait pconnOpts s1) = None \<and>
      ch_QueuePurge lib (trace s1 @ pre) ch n w = (num, None) \<and>
      (\<exists>rest. post =
         LogPrintf ''%d messages purged from queue [%s].\<newline>'' [LogInt num, LogStr pqueue] # rest)) \<and>
   fst (QueuePurge
          (lib\<lparr>ch_QueuePurge := \<lambda>tr ch n w. (h tr ch n w, snd (ch_QueuePurge lib tr ch n w))\<rparr>)
          pqueue noWait pconnOpts s1) =
     fst (QueuePurge lib pqueue noWait pconnOpts s1)"
  (is "?dlog \<and> ?dfree \<and> ?plog \<and> ?pfree")
proof -
  have ?dlog
  proof -
    obtain po pc s2 where entry: "QueueDelete_entry lib opts connOpts s0 = (po, pc, s2)"
      by (cases "QueueDelete_entry lib opts connOpts s0")
    from entry show ?thesis
    proof (cases rule: QueueDelete_cases [where queue = queue])
      case (connect_failed P u e e0)
      have r: "list_all is_retry (P @ [Dial u (Inl e0)])"
        using connect_failed(1) by simp
      show ?thesis
        by (auto simp: connect_failed(3) split_retry_only [OF r])
    next
      case (channel_failed P u c e)
      show ?thesis
        by (auto simp: channel_failed(3) split_retry_iff [OF channel_failed(1)] Cons_eq_append_conv)
    next
      case (command_failed P u c ch num e v)
      show ?thesis
        by (auto simp: command_failed(5) split_retry_iff [OF command_failed(1)] Cons_eq_append_conv)
    next
      case (deleted P u c ch num v)
      show ?thesis
        using deleted(4)
        by (auto simp: deleted(5) split_retry_iff [OF deleted(1)] Cons_eq_append_conv)
    qed
  qed
  moreover have ?plog
  proof -
    obtain pc s2 where entry: "QueuePurge_entry lib pconnOpts s1 = (pc, s2)"
      by (cases "QueuePurge_entry lib pconnOpts s1")
    from entry show ?thesis
    proof (cases rule: QueuePurge_cases [where queue = pqueue and noWait = noWait])
      case (connect_failed P u e e0)
      have r: "list_all is_retry (P @ [Dial u (Inl e0)])"
        using connect_failed(1) by simp
      show ?thesis
        by (auto simp: connect_failed(3) split_retry_only [OF r])
    next
      case (channel_failed P u c e)
      show ?thesis
        by (auto simp: channel_failed(3) split_retry_iff [OF channel_failed(1)] Cons_eq_append_conv)
    next
      case (command_failed P u c ch num e)
      show ?thesis
        by (auto simp: command_failed(4) split_retry_iff [OF command_failed(1)] Cons_eq_append_conv)
    next
      case (purged P u c ch num)
      show ?thesis
        using purged(3)
        by (auto simp: purged(4) split_retry_iff [OF purged(1)] Cons_eq_append_conv)
    qed
  qed
  moreover have ?dfree
  proof -
    let ?lib' = "lib\<lparr>ch_QueueDelete :=
                 \<lambda>tr ch n u e w. (g tr ch n u e w, snd (ch_QueueDelete lib tr ch n u e w))\<rparr>"
    have c: "\<And>p s. connect ?lib' p s = connect lib p s"
      by (rule connect_env) simp
    show ?thesis
      by (simp add: QueueDelete_def c default_defs step_defs Let_def
            split: prod.splits sum.splits option.splits)
  qed
  moreover have ?pfree
  proof -
    let ?lib' = "lib\<lparr>ch_QueuePurge :=
                 \<lambda>tr ch n w. (h tr ch n w, snd (ch_QueuePurge lib tr ch n w))\<rparr>"
    have c: "\<And>p s. connect ?lib' p s = connect lib p s"
      by (rule connect_env) simp
    show ?thesis
      by (simp add: QueuePurge_def c default_defs step_defs Let_def
            split: prod.splits sum.splits option.splits)
  qed
  ultimately show ?thesis by blast
qed

theorem QueueDelete_QueuePurge_count_logged_not_returned_witness:
  "(emitted world0 (snd (QueueDelete broker_up ''orders'' None None world0)) =
      [Dial ''amqp://localhost'' (Inr 7), OpenChannel 7 (Inr 3)] @
      ChQueueDelete 3 ''orders'' False False False (4, None) #
      [LogPrintf ''Queue [%s] deleted. %d messages purged.\<newline>'' [LogStr ''orders'', LogInt 4],
       ChClose 3, ConnClose 7] \<and>
    fst (QueueDelete broker_up ''orders'' None None world0) = None) \<and>
   (emitted world0 (snd (QueuePurge broker_up ''orders'' True None world0)) =
      [Dial ''amqp://localhost'' (Inr 7), OpenChannel 7 (Inr 3)] @
      ChQueuePurge 3 ''orders'' True (9, None) #
      [LogPrintf ''%d messages purged from queue [%s].\<newline>'' [LogInt 9, LogStr ''orders''],
       ChClose 3, ConnClose 7] \<and>
    fst (QueuePurge broker_up ''orders'' True None world0) = None)"
proof -
  have a: "emitted world0 (snd (QueueDelete broker_up ''orders'' None None world0)) =
      [Dial ''amqp://localhost'' (Inr 7), OpenChannel 7 (Inr 3)] @
      ChQueueDelete 3 ''orders'' False False False (4, None) #
      [LogPrintf ''Queue [%s] deleted. %d messages purged.\<newline>'' [LogStr ''orders'', LogInt 4],
       ChClose 3, ConnClose 7]"
    by code_simp
  have b: "emitted world0 (snd (QueuePurge broker_up ''orders'' True None world0)) =
      [Dial ''amqp://localhost'' (Inr 7), OpenChannel 7 (Inr 3)] @
      ChQueuePurge 3 ''orders'' True (9, None) #
      [LogPrintf ''%d messages purged from queue [%s].\<newline>'' [LogInt 9, LogStr ''orders''],
       ChClose 3, ConnClose 7]"
    by code_simp
  from a b
    QueueDelete_QueuePurge_count_logged_not_returned
      [of world0 broker_up "''orders''" None None _ world0 "''orders''" True None]
  have "fst (QueueDelete broker_up ''orders'' None None world0) = None \<and>
        fst (QueuePurge broker_up ''orders'' True None world0) = None"
    by blast
  with a b show ?thesis by blast
qed

text \<open>
  C7.  The connect step, modelled from the spec: for connect options with MaxRetries = N and
  a transport whose dial fails on every attempt, connect makes exactly N + 1 dial attempts
  to the URL, with one sleep of RetryInterval between each two consecutive attempts and
  nothing else, and returns the terminal error that wraps the failure of the last attempt.
\<close>

theorem connect_retries_exhausted:
  assumes "\<forall>tr u. isl (amqp_Dial lib tr u)"
  shows "let opts = cells (connectOpts s) p;
             N = MaxRetries opts;
             evs = emitted s (snd (connect lib p s))
         in length (filter is_dial evs) = N + 1 \<and>
            length evs = 2 * N + 1 \<and>
            (\<forall>i < length evs.
               (even i \<longrightarrow> (\<exists>e. evs ! i = Dial (URL opts) (Inl e))) \<and>
               (odd i \<longrightarrow> evs ! i = Sleep (RetryInterval opts))) \<and>
            (\<exists>e. last evs = Dial (URL opts) (Inl e) \<and>
                 fst (connect lib p s) = Inl (RetriesExhausted e))"
proof -
  let ?o = "cells (connectOpts s) p"
  from connect_loop_always_failing [OF assms, of ?o "MaxRetries ?o" s]
  obtain evs e where
    s: "snd (connect_loop lib ?o (MaxRetries ?o) s) = s\<lparr>trace := trace s @ evs\<rparr>"
    and rest: "fst (connect_loop lib ?o (MaxRetries ?o) s) = Inl (RetriesExhausted e)"
      "last evs = Dial (URL ?o) (Inl e)"
      "length evs = 2 * MaxRetries ?o + 1"
      "length (filter is_dial evs) = MaxRetries ?o + 1"
      "\<forall>i < length evs.
              (even i \<longrightarrow> (\<exists>e'. evs ! i = Dial (URL ?o) (Inl e'))) \<and>
              (odd i \<longrightarrow> evs ! i = Sleep (RetryInterval ?o))"
    by blast
  have ev: "emitted s (snd (connect lib p s)) = evs"
    using s by (simp add: connect_def Let_def emitted_def)
  have r: "fst (connect lib p s) = Inl (RetriesExhausted e)"
    using rest(1) by (simp add: connect_def Let_def)
  show ?thesis
    unfolding Let_def ev r
    by (intro conjI rest(3,4,5) exI [of _ e]) (rule rest(2), rule refl)
qed


theorem connect_retries_exhausted_witness:
  "(\<forall>tr u. isl (amqp_Dial broker_down tr u)) \<and>
   MaxRetries (cells (connectOpts world1) 0) = 2 \<and>
   emitted world1 (snd (connect broker_down 0 world1)) =
     [Dial ''amqp://broker'' (Inl (AmqpError ''refused'')), Sleep 500,
      Dial ''amqp://broker'' (Inl (AmqpError ''refused'')), Sleep 500,
      Dial ''amqp://broker'' (Inl (AmqpError ''refused''))] \<and>
   length (filter is_dial (emitted world1 (snd (connect broker_down 0 world1)))) = 2 + 1 \<and>
   fst (connect broker_down 0 world1) = Inl (RetriesExhausted (AmqpError ''refused''))"
proof -
  have h: "\<forall>tr u. isl (amqp_Dial broker_down tr u)"
    by (simp add: broker_down_def)
  have n: "MaxRetries (cells (connectOpts world1) 0) = 2"
    by code_simp
  have ev: "emitted world1 (snd (connect broker_down 0 world1)) =
     [Dial ''amqp://broker'' (Inl (AmqpError ''refused'')), Sleep 500,
      Dial ''amqp://broker'' (Inl (AmqpError ''refused'')), Sleep 500,
      Dial ''amqp://broker'' (Inl (AmqpError ''refused''))]"
    by code_simp
  from connect_retries_exhausted [OF h, of world1 0]
  have "length (filter is_dial (emitted world1 (snd (connect broker_down 0 world1)))) = 2 + 1 \<and>
        (\<exists>e. last (emitted world1 (snd (connect broker_down 0 world1))) =
                Dial (URL (cells (connectOpts world1) 0)) (Inl e) \<and>
             fst (connect broker_down 0 world1) = Inl (RetriesExhausted e))"
    unfolding Let_def n by blast
  with h n ev show ?thesis by auto
qed

text \<open>
  C8.  For each of QueueDeclare, QueueBind, QueueDelete and QueuePurge (every \<open>call\<close>): every
  options struct that was allocated before the call, of any of the four struct types, holds
  after the call the value it held before; in particular the structs that the caller's
  \<open>opts\<close> and \<open>connOpts\<close> point to.  The operations only allocate the default structs, at
  fresh addresses.
\<close>

theorem queue_ops_leave_options_unchanged:
  "(\<forall>a < next_free (declareQueueOpts s0).
      cells (declareQueueOpts (snd (run lib call s0))) a = cells (declareQueueOpts s0) a) \<and>
   (\<forall>a < next_free (queueBindOpts s0).
      cells (queueBindOpts (snd (run lib call s0))) a = cells (queueBindOpts s0) a) \<and>
   (\<forall>a < next_free (queueDeleteOpts s0).
      cells (queueDeleteOpts (snd (run lib call s0))) a = cells (queueDeleteOpts s0) a) \<and>
   (\<forall>a < next_free (connectOpts s0).
      cells (connectOpts (snd (run lib call s0))) a = cells (connectOpts s0) a)"
proof -
  obtain pc s2 where site: "connect_site lib call s0 = (pc, s2)"
    by (cases "connect_site lib call s0")
  show ?thesis
    using connect_site_frame [OF site] by (simp only: run_stores [OF site])
qed

theorem queue_ops_leave_options_unchanged_witness:
  "(0 :: nat) < next_free (declareQueueOpts world1) \<and>
   (0 :: nat) < next_free (connectOpts world1) \<and>
   cells (declareQueueOpts (snd (run broker_up (DeclareCall ''orders'' (Some 0) (Some 0)) world1))) 0 =
     \<lparr>Durable = False, AutoDelete = True, Exclusive = True, NoWait = False,
      Args = Some [(''x-max-length'', FInt 10)]\<rparr> \<and>
   cells (connectOpts (snd (run broker_up (DeclareCall ''orders'' (Some 0) (Some 0)) world1))) 0 =
     \<lparr>URL = ''amqp://broker'', MaxRetries = 2, RetryInterval = 500\<rparr>"
proof -
  have a: "(0 :: nat) < next_free (declareQueueOpts world1)"
    by code_simp
  have b: "(0 :: nat) < next_free (connectOpts world1)"
    by code_simp
  have c: "cells (declareQueueOpts world1) 0 =
     \<lparr>Durable = False, AutoDelete = True, Exclusive = True, NoWait = False,
      Args = Some [(''x-max-length'', FInt 10)]\<rparr>"
    by code_simp
  have d: "cells (connectOpts world1) 0 =
     \<lparr>URL = ''amqp://broker'', MaxRetries = 2, RetryInterval = 500\<rparr>"
    by code_simp
  from a b queue_ops_leave_options_unchanged
    [of world1 broker_up "DeclareCall ''orders'' (Some 0) (Some 0)"]
  have "cells (declareQueueOpts (snd (run broker_up (DeclareCall ''orders'' (Some 0) (Some 0)) world1))) 0 =
          cells (declareQueueOpts world1) 0 \<and>
        cells (connectOpts (snd (run broker_up (DeclareCall ''orders'' (Some 0) (Some 0)) world1))) 0 =
          cells (connectOpts world1) 0"
    by blast
  with a b c d show ?thesis by simp
qed

text \<open>
  C9.  QueueBind takes exchange, queue, key in this order and calls the channel-level bind
  primitive, whose parameters are name, key, exchange in this order, with the queue as
  name, the key as key and the exchange as exchange.  It does call it: whenever the connect
  step returns a connection and the library answers the channel-open on it with a channel,
  the one command of the call is that bind command on that channel, put to the primitive
  right after the channel-open.
\<close>

theorem QueueBind_argument_order:
  "(\<forall>pre ch n k x w args r post.
      emitted s0 (snd (QueueBind lib exchange queue key opts connOpts s0)) =
        pre @ ChQueueBind ch n k x w args r # post \<longrightarrow>
      n = queue \<and> k = key \<and> x = exchange \<and>
      r = ch_QueueBind lib (trace s0 @ pre) ch queue key exchange w args) \<and>
   (\<forall>c ch.
      OpenChannel c (Inr ch)
        \<in> set (emitted s0 (snd (QueueBind lib exchange queue key opts connOpts s0))) \<longrightarrow>
      (\<exists>w args r. ChQueueBind ch queue key exchange w args r
         \<in> set (emitted s0 (snd (QueueBind lib exchange queue key opts connOpts s0))))) \<and>
   (\<forall>c ch.
      fst (connect_step lib (BindCall exchange queue key opts connOpts) s0) = Inr c \<and>
      conn_Channel lib
        (trace (snd (connect_step lib (BindCall exchange queue key opts connOpts) s0))) c =
        Inr ch \<longrightarrow>
      (\<exists>w args.
         filter is_cmd (emitted s0 (snd (QueueBind lib exchange queue key opts connOpts s0))) =
           [ChQueueBind ch queue key exchange w args
              (ch_QueueBind lib
                 (trace (snd (connect_step lib (BindCall exchange queue key opts connOpts) s0)) @
                  [OpenChannel c (Inr ch)])
                 ch queue key exchange w args)]))"
  (is "?order \<and> ?opened \<and> ?issues")
proof -
  obtain po pc s2 where entry: "QueueBind_entry lib opts connOpts s0 = (po, pc, s2)"
    by (cases "QueueBind_entry lib opts connOpts s0")
  have step: "connect_step lib (BindCall exchange queue key opts connOpts) s0 = connect lib pc s2"
    by (simp add: connect_step_def entry)
  have ?issues
    unfolding step
  proof (intro allI impI, elim conjE)
    fix c ch
    assume "fst (connect lib pc s2) = Inr c"
      and "conn_Channel lib (trace (snd (connect lib pc s2))) c = Inr ch"
    from QueueBind_issues [OF entry this refl, of exchange queue key]
    show "\<exists>w args.
         filter is_cmd (emitted s0 (snd (QueueBind lib exchange queue key opts connOpts s0))) =
           [ChQueueBind ch queue key exchange w args
              (ch_QueueBind lib (trace (snd (connect lib pc s2)) @ [OpenChannel c (Inr ch)])
                 ch queue key exchange w args)]"
      by blast
  qed
  moreover
  from entry have "?order \<and> ?opened"
  proof (cases rule: QueueBind_cases [where exchange = exchange and queue = queue and key = key])
    case (connect_failed P u e e0)
    have r: "list_all is_retry (P @ [Dial u (Inl e0)])"
      using connect_failed(1) by simp
    show ?thesis
      using connect_failed(1)
      by (auto simp: connect_failed(3) split_retry_only [OF r] dest: retry_member)
  next
    case (channel_failed P u c e)
    show ?thesis
      using channel_failed(1)
      by (auto simp: channel_failed(3) split_retry_iff [OF channel_failed(1)] Cons_eq_append_conv
            dest: retry_member)
  next
    case (issued P u c ch r v)
    let ?cmd = "ChQueueBind ch queue key exchange (Bind_NoWait v) (Bind_Args v) r"
    let ?evs = "P @ [Dial u (Inr c), OpenChannel c (Inr ch), ?cmd, ChClose ch, ConnClose c]"
    have ev: "emitted s0 (snd (QueueBind lib exchange queue key opts connOpts s0)) = ?evs"
      using issued(5) by simp
    have mem: "?cmd \<in> set ?evs"
      by simp
    have uniq: "\<And>c' ch'. OpenChannel c' (Inr ch') \<in> set ?evs \<Longrightarrow> ch' = ch"
      using issued(1) by (auto dest: retry_member)
    show ?thesis
      unfolding ev
    proof (intro conjI allI impI)
      fix c' ch'
      assume "OpenChannel c' (Inr ch') \<in> set ?evs"
      then have "ch' = ch" by (rule uniq)
      with mem show "\<exists>w args r. ChQueueBind ch' queue key exchange w args r \<in> set ?evs"
        by blast
    qed (use issued(4) in \<open>auto simp: split_retry_iff [OF issued(1)] Cons_eq_append_conv\<close>)
  qed
  ultimately show ?thesis by blast
qed

theorem QueueBind_argument_order_witness:
  "(fst (connect_step broker_up (BindCall ''logs'' ''orders'' ''k'' None None) world0) = Inr 7 \<and>
    conn_Channel broker_up
      (trace (snd (connect_step broker_up (BindCall ''logs'' ''orders'' ''k'' None None) world0))) 7 =
      Inr 3 \<and>
    (\<exists>w args.
       filter is_cmd
         (emitted world0 (snd (QueueBind broker_up ''logs'' ''orders'' ''k'' None None world0))) =
         [ChQueueBind 3 ''orders'' ''k'' ''logs'' w args
            (ch_QueueBind broker_up
               (trace (snd (connect_step broker_up (BindCall ''logs'' ''orders'' ''k'' None None) world0)) @
                [OpenChannel 7 (Inr 3)])
               3 ''orders'' ''k'' ''logs'' w args)])) \<and>
   (emitted world0 (snd (QueueBind broker_up ''logs'' ''orders'' ''k'' None None world0)) =
      [Dial ''amqp://localhost'' (Inr 7), OpenChannel 7 (Inr 3)] @
      ChQueueBind 3 ''orders'' ''k'' ''logs'' False None None # [ChClose 3, ConnClose 7] \<and>
    ''orders'' = ''orders'' \<and> ''k'' = ''k'' \<and> ''logs'' = ''logs'' \<and>
    (None :: error option) =
      ch_QueueBind broker_up (trace world0 @ [Dial ''amqp://localhost'' (Inr 7), OpenChannel 7 (Inr 3)])
        3 ''orders'' ''k'' ''logs'' False None)"
proof -
  have a: "emitted world0 (snd (QueueBind broker_up ''logs'' ''orders'' ''k'' None None world0)) =
     [Dial ''amqp://localhost'' (Inr 7), OpenChannel 7 (Inr 3)] @
     ChQueueBind 3 ''orders'' ''k'' ''logs'' False None None # [ChClose 3, ConnClose 7]"
    by code_simp
  have b: "fst (connect_step broker_up (BindCall ''logs'' ''orders'' ''k'' None None) world0) = Inr 7"
    by code_simp
  have c: "conn_Channel broker_up
      (trace (snd (connect_step broker_up (BindCall ''logs'' ''orders'' ''k'' None None) world0))) 7 =
      Inr 3"
    by (simp add: broker_up_def)
  note inst = QueueBind_argument_order [of world0 broker_up "''logs''" "''orders''" "''k''" None None]
  from a inst
  have "''orders'' = ''orders'' \<and> ''k'' = ''k'' \<and> ''logs'' = ''logs'' \<and>
    (None :: error option) =
      ch_QueueBind broker_up (trace world0 @ [Dial ''amqp://localhost'' (Inr 7), OpenChannel 7 (Inr 3)])
        3 ''orders'' ''k'' ''logs'' False None"
    by blast
  moreover
  from b c inst
  have "\<exists>w args.
       filter is_cmd
         (emitted world0 (snd (QueueBind broker_up ''logs'' ''orders'' ''k'' None None world0))) =
         [ChQueueBind 3 ''orders'' ''k'' ''logs'' w args
            (ch_QueueBind broker_up
               (trace (snd (connect_step broker_up (BindCall ''logs'' ''orders'' ''k'' None None) world0)) @
                [OpenChannel 7 (Inr 3)])
               3 ''orders'' ''k'' ''logs'' w args)]"
    by blast
  ultimately show ?thesis using a b c by blast
qed

text \<open>
  C10.  When the connect step of QueueDeclare fails, and when its channel-open fails,
  QueueDeclare returns the zero-value descriptor (empty name, zero counts) together with
  the error of the failed step; a call that issued no command at all returns the zero-value
  descriptor and a non-nil error.
\<close>

theorem QueueDeclare_zero_descriptor_on_early_failure:
  "(\<forall>e s3.
      connect lib (fst (connect_site lib (DeclareCall name opts connOpts) s0))
        (snd (connect_site lib (DeclareCall name opts connOpts) s0)) = (Inl e, s3) \<longrightarrow>
      fst (QueueDeclare lib name opts connOpts s0) =
        (\<lparr>Name = [], Messages = 0, Consumers = 0\<rparr>, Some e)) \<and>
   (\<forall>c e.
      OpenChannel c (Inl e) \<in> set (emitted s0 (snd (QueueDeclare lib name opts connOpts s0))) \<longrightarrow>
      fst (QueueDeclare lib name opts connOpts s0) =
        (\<lparr>Name = [], Messages = 0, Consumers = 0\<rparr>, Some e)) \<and>
   ((\<forall>ev \<in> set (emitted s0 (snd (QueueDeclare lib name opts connOpts s0))). \<not> is_cmd ev) \<longrightarrow>
      (\<exists>e. fst (QueueDeclare lib name opts connOpts s0) =
        (\<lparr>Name = [], Messages = 0, Consumers = 0\<rparr>, Some e)))"
proof -
  obtain po pc s2 where entry: "QueueDeclare_entry lib opts connOpts s0 = (po, pc, s2)"
    by (cases "QueueDeclare_entry lib opts connOpts s0")
  from entry show ?thesis
  proof (cases rule: QueueDeclare_cases [where name = name])
    case (connect_failed P u e e0)
    then show ?thesis
      using entry by (auto simp: zero_Queue_def dest: retry_member)
  next
    case (channel_failed P u c e)
    then show ?thesis
      using entry by (auto simp: zero_Queue_def dest: retry_member)
  next
    case (issued P u c ch r v)
    then show ?thesis
      using entry by (auto simp: zero_Queue_def dest: retry_member)
  qed
qed

theorem QueueDeclare_zero_descriptor_on_early_failure_witness:
  "(OpenChannel 7 (Inl (AmqpError ''channel''))
      \<in> set (emitted world0 (snd (QueueDeclare no_channel ''orders'' None None world0))) \<and>
    fst (QueueDeclare no_channel ''orders'' None None world0) =
      (\<lparr>Name = [], Messages = 0, Consumers = 0\<rparr>, Some (AmqpError ''channel''))) \<and>
   (fst (connect broker_down (fst (connect_site broker_down (DeclareCall ''orders'' None None) world0))
        (snd (connect_site broker_down (DeclareCall ''orders'' None None) world0))) =
      Inl (RetriesExhausted (AmqpError ''refused'')) \<and>
    fst (QueueDeclare broker_down ''orders'' None None world0) =
      (\<lparr>Name = [], Messages = 0, Consumers = 0\<rparr>, Some (RetriesExhausted (AmqpError ''refused''))))"
proof -
  have a: "OpenChannel 7 (Inl (AmqpError ''channel''))
      \<in> set (emitted world0 (snd (QueueDeclare no_channel ''orders'' None None world0)))"
    by code_simp
  have b: "fst (connect broker_down (fst (connect_site broker_down (DeclareCall ''orders'' None None) world0))
        (snd (connect_site broker_down (DeclareCall ''orders'' None None) world0))) =
      Inl (RetriesExhausted (AmqpError ''refused''))"
    by code_simp
  from a QueueDeclare_zero_descriptor_on_early_failure [of no_channel "''orders''" None None world0]
  have "fst (QueueDeclare no_channel ''orders'' None None world0) =
      (\<lparr>Name = [], Messages = 0, Consumers = 0\<rparr>, Some (AmqpError ''channel''))"
    by blast
  moreover
  from b QueueDeclare_zero_descriptor_on_early_failure [of broker_down "''orders''" None None world0]
  have "fst (QueueDeclare broker_down ''orders'' None None world0) =
      (\<lparr>Name = [], Messages = 0, Consumers = 0\<rparr>, Some (RetriesExhausted (AmqpError ''refused'')))"
    by (metis prod.collapse)
  ultimately show ?thesis using a b by blast
qed

end
